theory Spec2Isabelle
  imports Complex_Main "HOL-Library.Sublist" "HOL-Library.Multiset"
begin

section \<open>Python values at the judge boundary\<close>

text \<open>
  A Python \<open>str\<close> is a sequence of Unicode code points, so it is modelled as a list of
  code points (naturals); the Chinese literals of the source are written out by code point.
  What \<open>json.loads\<close> returns is a value of the following type; \<open>JNull\<close> is Python's
  \<open>None\<close>. An object is an association list read with \<open>map_of\<close> (a parsed object has
  pairwise distinct keys).
\<close>

type_synonym pystr = "nat list"

datatype json =
    JNull
  | JBool bool
  | JNum real
  | JStr pystr
  | JArr "json list"
  | JObj "(pystr \<times> json) list"

datatype error =
    TypeError
  | KeyError
  | IndexError
  | ValueError
  | JSONDecodeError
  | RuntimeError
  | OSError

text \<open>\<open>for item in v\<close>: a list yields its elements, a dict its keys, a string its
  characters; anything else is not iterable.\<close>

fun py_iter :: "json \<Rightarrow> error + json list" where
  "py_iter (JArr xs) = Inr xs"
| "py_iter (JObj kv) = Inr (map (\<lambda>p. JStr (fst p)) kv)"
| "py_iter (JStr s) = Inr (map (\<lambda>c. JStr [c]) s)"
| "py_iter JNull = Inl TypeError"
| "py_iter (JBool b) = Inl TypeError"
| "py_iter (JNum r) = Inl TypeError"

fun is_substr :: "pystr \<Rightarrow> pystr \<Rightarrow> bool" where
  "is_substr p [] = (p = [])"
| "is_substr p (x # xs) = (prefix p (x # xs) \<or> is_substr p xs)"

text \<open>\<open>key in item\<close> for a string \<open>key\<close>: key test on a dict, substring test on a
  string, membership on a list, \<open>TypeError\<close> on a value that is no container.\<close>

fun py_contains :: "pystr \<Rightarrow> json \<Rightarrow> error + bool" where
  "py_contains key (JObj kv) = Inr (map_of kv key \<noteq> None)"
| "py_contains key (JStr s) = Inr (is_substr key s)"
| "py_contains key (JArr xs) = Inr (JStr key \<in> set xs)"
| "py_contains key JNull = Inl TypeError"
| "py_contains key (JBool b) = Inl TypeError"
| "py_contains key (JNum r) = Inl TypeError"

text \<open>\<open>item[key]\<close> for a string \<open>key\<close>: only a dict can be indexed by a string.\<close>

fun py_getitem :: "json \<Rightarrow> pystr \<Rightarrow> error + json" where
  "py_getitem (JObj kv) key = (case map_of kv key of None \<Rightarrow> Inl KeyError | Some v \<Rightarrow> Inr v)"
| "py_getitem (JStr s) key = Inl TypeError"
| "py_getitem (JArr xs) key = Inl TypeError"
| "py_getitem JNull key = Inl TypeError"
| "py_getitem (JBool b) key = Inl TypeError"
| "py_getitem (JNum r) key = Inl TypeError"

text \<open>\<open>v in MAPPING\<close> and \<open>MAPPING[v]\<close> for a dict literal with string keys: the value is
  hashed first, and lists and dicts are unhashable.\<close>

fun dict_contains :: "(pystr \<times> int) list \<Rightarrow> json \<Rightarrow> error + bool" where
  "dict_contains m (JStr s) = Inr (map_of m s \<noteq> None)"
| "dict_contains m (JArr xs) = Inl TypeError"
| "dict_contains m (JObj kv) = Inl TypeError"
| "dict_contains m JNull = Inr False"
| "dict_contains m (JBool b) = Inr False"
| "dict_contains m (JNum r) = Inr False"

fun dict_get :: "(pystr \<times> int) list \<Rightarrow> json \<Rightarrow> error + int" where
  "dict_get m (JStr s) = (case map_of m s of None \<Rightarrow> Inl KeyError | Some p \<Rightarrow> Inr p)"
| "dict_get m (JArr xs) = Inl TypeError"
| "dict_get m (JObj kv) = Inl TypeError"
| "dict_get m JNull = Inl KeyError"
| "dict_get m (JBool b) = Inl KeyError"
| "dict_get m (JNum r) = Inl KeyError"


section \<open>The score calculator (eval/eval\_res.py, calculate\_score)\<close>

text \<open>The two keys read from an issue record: U+95EE U+9898 U+4E25 U+91CD U+7A0B U+5EA6
  (severity of the problem) and U+5224 U+65AD U+7ED3 U+679C (verdict).\<close>

definition SEVERITY_KEY :: pystr where
  "SEVERITY_KEY = [38382, 39064, 20005, 37325, 31243, 24230]"

definition VERDICT_KEY :: pystr where
  "VERDICT_KEY = [21028, 26029, 32467, 26524]"

text \<open>The vocabulary, by code point:
  \<open>S_OVERALL_OK\<close> U+6574 U+4F53 U+65E0 U+95EE U+9898 (no problem overall),
  \<open>S_ORDINARY\<close> U+666E U+901A, \<open>S_MAJOR\<close> "Major",
  \<open>S_SEVERE\<close> U+4E25 U+91CD, \<open>S_CRITICAL\<close> "Critical",
  \<open>S_VERY_SEVERE\<close> U+975E U+5E38 U+4E25 U+91CD, \<open>S_EXTREMELY_CRITICAL\<close> "Extremely Critical",
  \<open>S_WRONG\<close> U+9519 U+8BEF, \<open>S_RIGHT\<close> U+6B63 U+786E,
  \<open>S_NO_PROBLEM\<close> U+65E0 U+95EE U+9898, \<open>S_HAS_PROBLEM\<close> U+6709 U+95EE U+9898.\<close>

definition S_OVERALL_OK :: pystr where "S_OVERALL_OK = [25972, 20307, 26080, 38382, 39064]"
definition S_ORDINARY :: pystr where "S_ORDINARY = [26222, 36890]"
definition S_MAJOR :: pystr where "S_MAJOR = [77, 97, 106, 111, 114]"
definition S_SEVERE :: pystr where "S_SEVERE = [20005, 37325]"
definition S_CRITICAL :: pystr where "S_CRITICAL = [67, 114, 105, 116, 105, 99, 97, 108]"
definition S_VERY_SEVERE :: pystr where "S_VERY_SEVERE = [38750, 24120, 20005, 37325]"
definition S_EXTREMELY_CRITICAL :: pystr where
  "S_EXTREMELY_CRITICAL =
     [69, 120, 116, 114, 101, 109, 101, 108, 121, 32, 67, 114, 105, 116, 105, 99, 97, 108]"
definition S_WRONG :: pystr where "S_WRONG = [38169, 35823]"
definition S_RIGHT :: pystr where "S_RIGHT = [27491, 30830]"
definition S_NO_PROBLEM :: pystr where "S_NO_PROBLEM = [26080, 38382, 39064]"
definition S_HAS_PROBLEM :: pystr where "S_HAS_PROBLEM = [26377, 38382, 39064]"

definition ACCURACY_MAPPING :: "(pystr \<times> int) list" where
  "ACCURACY_MAPPING =
     [(S_OVERALL_OK, 0),
      (S_ORDINARY, - 5), (S_MAJOR, - 5),
      (S_SEVERE, - 10), (S_CRITICAL, - 10),
      (S_VERY_SEVERE, - 50), (S_EXTREMELY_CRITICAL, - 50)]"

definition CORRECTNESS_MAPPING :: "(pystr \<times> int) list" where
  "CORRECTNESS_MAPPING = [(S_WRONG, - 5), (S_RIGHT, 0)]"

definition FLUENCY_MAPPING :: "(pystr \<times> int) list" where
  "FLUENCY_MAPPING = [(S_NO_PROBLEM, 0), (S_HAS_PROBLEM, - 2), (S_OVERALL_OK, 0)]"

definition APPROPIATE_MAPPING :: "(pystr \<times> int) list" where
  "APPROPIATE_MAPPING = [(S_NO_PROBLEM, 0), (S_HAS_PROBLEM, - 5), (S_OVERALL_OK, 0)]"

text \<open>
  The body of each of the four loops has one shape,
  \<^verbatim>\<open>if KEY in item and item[KEY] in MAPPING: score += MAPPING[item[KEY]]  else: score += default\<close>,
  with \<open>and\<close> evaluated left to right. \<open>issue_penalty\<close> is what one iteration adds
  (the warning it logs in the else branch is not modelled), \<open>score_loop\<close> is the loop.
\<close>

definition issue_penalty :: "pystr \<Rightarrow> (pystr \<times> int) list \<Rightarrow> int \<Rightarrow> json \<Rightarrow> error + int" where
  "issue_penalty key mapping dflt item =
     (case py_contains key item of
        Inl e \<Rightarrow> Inl e
      | Inr present \<Rightarrow>
          if \<not> present then Inr dflt
          else (case py_getitem item key of
                  Inl e \<Rightarrow> Inl e
                | Inr v \<Rightarrow>
                    (case dict_contains mapping v of
                       Inl e \<Rightarrow> Inl e
                     | Inr known \<Rightarrow> if known then dict_get mapping v else Inr dflt)))"

fun score_loop :: "pystr \<Rightarrow> (pystr \<times> int) list \<Rightarrow> int \<Rightarrow> int \<Rightarrow> json list \<Rightarrow> error + int" where
  "score_loop key mapping dflt score [] = Inr score"
| "score_loop key mapping dflt score (item # items) =
     (case issue_penalty key mapping dflt item of
        Inl e \<Rightarrow> Inl e
      | Inr p \<Rightarrow> score_loop key mapping dflt (score + p) items)"

definition calculate_score :: "json \<Rightarrow> json \<Rightarrow> json \<Rightarrow> json \<Rightarrow> error + (int \<times> int \<times> int)" where
  "calculate_score acc ckpt flu appropiate =
     (case py_iter acc of Inl e \<Rightarrow> Inl e | Inr acc_items \<Rightarrow>
     (case score_loop SEVERITY_KEY ACCURACY_MAPPING (- 5) 60 acc_items of Inl e \<Rightarrow> Inl e | Inr s1 \<Rightarrow>
     (case py_iter ckpt of Inl e \<Rightarrow> Inl e | Inr ckpt_items \<Rightarrow>
     (case score_loop VERDICT_KEY CORRECTNESS_MAPPING 0 s1 ckpt_items of Inl e \<Rightarrow> Inl e | Inr s2 \<Rightarrow>
     (let acc_score = max s2 0 in
     (case py_iter flu of Inl e \<Rightarrow> Inl e | Inr flu_items \<Rightarrow>
     (case score_loop SEVERITY_KEY FLUENCY_MAPPING 0 20 flu_items of Inl e \<Rightarrow> Inl e | Inr s3 \<Rightarrow>
     (let flu_score = max s3 0 in
     (case py_iter appropiate of Inl e \<Rightarrow> Inl e | Inr app_items \<Rightarrow>
     (case score_loop SEVERITY_KEY APPROPIATE_MAPPING 0 20 app_items of Inl e \<Rightarrow> Inl e | Inr s4 \<Rightarrow>
     (let appropiate_score = max s4 0 in
      Inr (acc_score, flu_score, appropiate_score))))))))))))"


subsection \<open>The scoring rules as the specification words them\<close>

text \<open>
  The specification speaks of a penalty per issue, keyed by the record's severity (or, for a
  checkpoint issue, its verdict). These definitions follow those words; the theorems below
  compare them with the loops of the source. An issue is flagged when its severity is the
  string "has problem".
\<close>

definition severity_of :: "json \<Rightarrow> json option" where
  "severity_of item = (case item of JObj kv \<Rightarrow> map_of kv SEVERITY_KEY | _ \<Rightarrow> None)"

definition verdict_of :: "json \<Rightarrow> json option" where
  "verdict_of item = (case item of JObj kv \<Rightarrow> map_of kv VERDICT_KEY | _ \<Rightarrow> None)"

definition accuracy_penalty :: "json \<Rightarrow> int" where
  "accuracy_penalty item =
     (if severity_of item = Some (JStr S_OVERALL_OK) then 0
      else if severity_of item = Some (JStr S_ORDINARY) \<or> severity_of item = Some (JStr S_MAJOR) then - 5
      else if severity_of item = Some (JStr S_SEVERE) \<or> severity_of item = Some (JStr S_CRITICAL) then - 10
      else if severity_of item = Some (JStr S_VERY_SEVERE)
              \<or> severity_of item = Some (JStr S_EXTREMELY_CRITICAL) then - 50
      else - 5)"

definition checkpoint_penalty :: "json \<Rightarrow> int" where
  "checkpoint_penalty item = (if verdict_of item = Some (JStr S_WRONG) then - 5 else 0)"

definition flagged :: "json \<Rightarrow> bool" where
  "flagged item = (severity_of item = Some (JStr S_HAS_PROBLEM))"

definition flagged_count :: "json \<Rightarrow> nat" where
  "flagged_count judgement =
     (case py_iter judgement of Inl e \<Rightarrow> 0 | Inr items \<Rightarrow> length (filter flagged items))"

definition fluency_penalty :: "json \<Rightarrow> int" where
  "fluency_penalty item = (if flagged item then - 2 else 0)"

definition appropiate_penalty :: "json \<Rightarrow> int" where
  "appropiate_penalty item = (if flagged item then - 5 else 0)"

text \<open>
  An issue record is a JSON object whose value under the key read by the loop, when there is
  one, is hashable (a string, a number, a boolean or null).
\<close>

fun hashable :: "json \<Rightarrow> bool" where
  "hashable (JArr xs) = False"
| "hashable (JObj kv) = False"
| "hashable v = True"

definition issue_record :: "pystr \<Rightarrow> json \<Rightarrow> bool" where
  "issue_record key item =
     (case item of
        JObj kv \<Rightarrow> (case map_of kv key of None \<Rightarrow> True | Some v \<Rightarrow> hashable v)
      | _ \<Rightarrow> False)"

text \<open>Two concrete issue records, used to evaluate the calculator.\<close>

definition very_severe_issue :: json where
  "very_severe_issue = JObj [(SEVERITY_KEY, JStr S_VERY_SEVERE)]"

definition flagged_issue :: json where
  "flagged_issue = JObj [(SEVERITY_KEY, JStr S_HAS_PROBLEM)]"


section \<open>The two regular expressions of eval/eval\_res.py\<close>

text \<open>
  \<open>re.search\<close> is a backtracking matcher: it tries the start positions from left to right
  and, at each, the alternatives of every quantifier in priority order (a greedy quantifier
  takes a character first and gives it back on failure, a lazy one tries to go on first).
  The matcher below is that search for the items the two patterns are built from: a literal,
  an optional literal \<open>(?:lit)?\<close>, a greedy \<open>c*\<close> and a lazy \<open>c*?\<close> of a character class,
  one character of a class, and the parentheses of the one capturing group. It returns the
  text of group 1 of the first match.

  \<open>\s\<close> on a \<open>str\<close> pattern matches the characters for which \<open>str.isspace\<close> holds, the
  same ones \<open>str.strip()\<close> removes.
\<close>

definition isspace :: "nat \<Rightarrow> bool" where
  "isspace c \<longleftrightarrow>
     (9 \<le> c \<and> c \<le> 13) \<or> (28 \<le> c \<and> c \<le> 32) \<or> c = 133 \<or> c = 160 \<or> c = 5760
     \<or> (8192 \<le> c \<and> c \<le> 8202) \<or> c = 8232 \<or> c = 8233 \<or> c = 8239 \<or> c = 8287 \<or> c = 12288"

datatype cclass = Space | NonSpace | AnyChar

fun cmatch :: "cclass \<Rightarrow> nat \<Rightarrow> bool" where
  "cmatch Space c = isspace c"
| "cmatch NonSpace c = (\<not> isspace c)"
| "cmatch AnyChar c = True"

datatype ritem =
    Lit pystr
  | OptLit pystr
  | Star cclass
  | LazyStar cclass
  | One cclass
  | GroupOpen
  | GroupClose

text \<open>\<open>grow rec g t\<close>: the text of the group so far, after the matcher has consumed \<open>t\<close>.\<close>

definition grow :: "bool \<Rightarrow> pystr \<Rightarrow> pystr \<Rightarrow> pystr" where
  "grow rec g t = (if rec then g @ t else g)"

fun rmatch :: "ritem list \<Rightarrow> bool \<Rightarrow> pystr \<Rightarrow> pystr \<Rightarrow> pystr option" where
  "rmatch [] rec g s = Some g"
| "rmatch (GroupOpen # rs) rec g s = rmatch rs True [] s"
| "rmatch (GroupClose # rs) rec g s = rmatch rs False g s"
| "rmatch (Lit l # rs) rec g s =
     (if prefix l s then rmatch rs rec (grow rec g l) (drop (length l) s) else None)"
| "rmatch (OptLit l # rs) rec g s =
     (case (if prefix l s then rmatch rs rec (grow rec g l) (drop (length l) s) else None) of
        Some r \<Rightarrow> Some r
      | None \<Rightarrow> rmatch rs rec g s)"
| "rmatch (One c # rs) rec g [] = None"
| "rmatch (One c # rs) rec g (x # xs) =
     (if cmatch c x then rmatch rs rec (grow rec g [x]) xs else None)"
| "rmatch (Star c # rs) rec g [] = rmatch rs rec g []"
| "rmatch (Star c # rs) rec g (x # xs) =
     (if cmatch c x
      then (case rmatch (Star c # rs) rec (grow rec g [x]) xs of
              Some r \<Rightarrow> Some r
            | None \<Rightarrow> rmatch rs rec g (x # xs))
      else rmatch rs rec g (x # xs))"
| "rmatch (LazyStar c # rs) rec g [] = rmatch rs rec g []"
| "rmatch (LazyStar c # rs) rec g (x # xs) =
     (case rmatch rs rec g (x # xs) of
        Some r \<Rightarrow> Some r
      | None \<Rightarrow> if cmatch c x then rmatch (LazyStar c # rs) rec (grow rec g [x]) xs else None)"

fun re_search :: "ritem list \<Rightarrow> pystr \<Rightarrow> pystr option" where
  "re_search rs [] = rmatch rs False [] []"
| "re_search rs (x # xs) =
     (case rmatch rs False [] (x # xs) of Some g \<Rightarrow> Some g | None \<Rightarrow> re_search rs xs)"

text \<open>Three backticks, and the word \<open>json\<close>.\<close>

definition FENCE :: pystr where "FENCE = [96, 96, 96]"
definition JSON_TAG :: pystr where "JSON_TAG = [106, 115, 111, 110]"

text \<open>The pattern of \<open>extract_json_string\<close>:
  \<^verbatim>\<open>```(?:json)?\s*([\s\S]*?)\s*```\<close>.\<close>

definition FENCE_PATTERN :: "ritem list" where
  "FENCE_PATTERN =
     [Lit FENCE, OptLit JSON_TAG, Star Space, GroupOpen, LazyStar AnyChar, GroupClose,
      Star Space, Lit FENCE]"

text \<open>\<open>str.strip()\<close> without argument.\<close>

definition py_rstrip :: "pystr \<Rightarrow> pystr" where
  "py_rstrip s = rev (dropWhile isspace (rev s))"

definition py_strip :: "pystr \<Rightarrow> pystr" where
  "py_strip s = py_rstrip (dropWhile isspace s)"

definition extract_json_string :: "pystr \<Rightarrow> pystr" where
  "extract_json_string text =
     (case re_search FENCE_PATTERN text of Some g \<Rightarrow> py_strip g | None \<Rightarrow> text)"

text \<open>The gate's marker phrase U+662F U+5426 U+5B58 U+5728 U+95EE U+9898 U+FF1A ("is there a
  problem:", with a full-width colon), the answer U+662F (yes), and the pattern of
  \<open>metrics\<close>: the marker, \<^verbatim>\<open>\s*\<close>, and one captured character \<^verbatim>\<open>([^\s])\<close>.\<close>

definition MARKER :: pystr where
  "MARKER = [26159, 21542, 23384, 22312, 38382, 39064, 65306]"

definition YES :: pystr where "YES = [26159]"

definition GATE_PATTERN :: "ritem list" where
  "GATE_PATTERN = [Lit MARKER, Star Space, GroupOpen, One NonSpace, GroupClose]"


subsection \<open>The fenced block as the specification words it\<close>

text \<open>
  \<open>split_at_fence s\<close> cuts \<open>s\<close> at its first run of three backticks. The first fenced
  block of a text starts at its first fence, after an optional \<open>json\<close>, and ends at the
  next fence (the lazy match: the nearest one).
\<close>

fun split_at_fence :: "pystr \<Rightarrow> (pystr \<times> pystr) option" where
  "split_at_fence [] = None"
| "split_at_fence (x # xs) =
     (if prefix FENCE (x # xs) then Some ([], drop 3 (x # xs))
      else map_option (\<lambda>p. (x # fst p, snd p)) (split_at_fence xs))"

definition skip_tag :: "pystr \<Rightarrow> pystr" where
  "skip_tag s = (if prefix JSON_TAG s then drop 4 s else s)"

definition fenced_block :: "pystr \<Rightarrow> pystr option" where
  "fenced_block text =
     (case split_at_fence text of
        None \<Rightarrow> None
      | Some p \<Rightarrow> map_option fst (split_at_fence (skip_tag (snd p))))"


subsection \<open>Auxiliary functions for the analysis of the fence pattern\<close>

text \<open>
  \<open>tail_ok s\<close>: the end of the pattern, \<^verbatim>\<open>\s*```\<close>, matches at the start of \<open>s\<close>.
  \<open>lazy_end s\<close>: what the lazy group takes from \<open>s\<close>, the shortest prefix after which the
  end of the pattern matches. \<open>inner_of s\<close>: the text before the first fence of \<open>s\<close>,
  stripped.
\<close>

definition tail_ok :: "pystr \<Rightarrow> bool" where
  "tail_ok s = prefix FENCE (dropWhile isspace s)"

fun lazy_end :: "pystr \<Rightarrow> pystr option" where
  "lazy_end [] = None"
| "lazy_end (x # xs) = (if tail_ok (x # xs) then Some [] else map_option (Cons x) (lazy_end xs))"

definition inner_of :: "pystr \<Rightarrow> pystr option" where
  "inner_of s = map_option (\<lambda>p. py_strip (fst p)) (split_at_fence s)"


section \<open>The judgement pipeline (eval/eval\_res.py, runs/run.py, dataset/data.py)\<close>

text \<open>The ASCII literals of the source, by code point; each constant is named after the
  literal it stands for (\<open>K_x\<close> is the dictionary key or keyword \<open>"x"\<close>,
  \<open>UNSUPPORT_TASK\<close> the message \<open>"Unsupport task"\<close>).\<close>

definition ROLE_SYSTEM :: pystr where
  "ROLE_SYSTEM = [115, 121, 115, 116, 101, 109]"

definition ROLE_USER :: pystr where
  "ROLE_USER = [117, 115, 101, 114]"

definition JUDGE_API_BASE :: pystr where
  "JUDGE_API_BASE = [74, 85, 68, 71, 69, 95, 65, 80, 73, 95, 66, 65, 83, 69]"

definition JUDGE_API_KEY :: pystr where
  "JUDGE_API_KEY = [74, 85, 68, 71, 69, 95, 65, 80, 73, 95, 75, 69, 89]"

definition CANDIDATE_API_BASE :: pystr where
  "CANDIDATE_API_BASE = [67, 65, 78, 68, 73, 68, 65, 84, 69, 95, 65, 80, 73, 95, 66, 65, 83, 69]"

definition CANDIDATE_API_KEY :: pystr where
  "CANDIDATE_API_KEY = [67, 65, 78, 68, 73, 68, 65, 84, 69, 95, 65, 80, 73, 95, 75, 69, 89]"

definition K_prompt :: pystr where
  "K_prompt = [112, 114, 111, 109, 112, 116]"

definition K_response :: pystr where
  "K_response = [114, 101, 115, 112, 111, 110, 115, 101]"

definition K_ori_text :: pystr where
  "K_ori_text = [111, 114, 105, 95, 116, 101, 120, 116]"

definition K_checkpoints :: pystr where
  "K_checkpoints = [99, 104, 101, 99, 107, 112, 111, 105, 110, 116, 115]"

definition K_accuracy_judge_result :: pystr where
  "K_accuracy_judge_result = [97, 99, 99, 117, 114, 97, 99, 121, 95, 106, 117, 100, 103, 101, 95, 114, 101, 115, 117, 108, 116]"

definition K_fluency_judge_result :: pystr where
  "K_fluency_judge_result = [102, 108, 117, 101, 110, 99, 121, 95, 106, 117, 100, 103, 101, 95, 114, 101, 115, 117, 108, 116]"

definition K_checkpoints_judge_result :: pystr where
  "K_checkpoints_judge_result = [99, 104, 101, 99, 107, 112, 111, 105, 110, 116, 115, 95, 106, 117, 100, 103, 101, 95, 114, 101, 115, 117, 108, 116]"

definition K_style_judge_result :: pystr where
  "K_style_judge_result = [115, 116, 121, 108, 101, 95, 106, 117, 100, 103, 101, 95, 114, 101, 115, 117, 108, 116]"

definition K_adjustment :: pystr where
  "K_adjustment = [97, 100, 106, 117, 115, 116, 109, 101, 110, 116]"

definition K_instruction_following :: pystr where
  "K_instruction_following = [105, 110, 115, 116, 114, 117, 99, 116, 105, 111, 110, 95, 102, 111, 108, 108, 111, 119, 105, 110, 103]"

definition K_initial_judgement :: pystr where
  "K_initial_judgement = [105, 110, 105, 116, 105, 97, 108, 95, 106, 117, 100, 103, 101, 109, 101, 110, 116]"

definition K_self_critique :: pystr where
  "K_self_critique = [115, 101, 108, 102, 95, 99, 114, 105, 116, 105, 113, 117, 101]"

definition K_accuracy :: pystr where
  "K_accuracy = [97, 99, 99, 117, 114, 97, 99, 121]"

definition K_fluency :: pystr where
  "K_fluency = [102, 108, 117, 101, 110, 99, 121]"

definition K_appropiate :: pystr where
  "K_appropiate = [97, 112, 112, 114, 111, 112, 105, 97, 116, 101]"

definition K_prompt_id :: pystr where
  "K_prompt_id = [112, 114, 111, 109, 112, 116, 95, 105, 100]"

definition K_reference_list :: pystr where
  "K_reference_list = [114, 101, 102, 101, 114, 101, 110, 99, 101, 95, 108, 105, 115, 116]"

definition K_Primary_Domain :: pystr where
  "K_Primary_Domain = [80, 114, 105, 109, 97, 114, 121, 95, 68, 111, 109, 97, 105, 110]"

definition K_Secondary_Domain :: pystr where
  "K_Secondary_Domain = [83, 101, 99, 111, 110, 100, 97, 114, 121, 95, 68, 111, 109, 97, 105, 110]"

definition K_model_output :: pystr where
  "K_model_output = [109, 111, 100, 101, 108, 95, 111, 117, 116, 112, 117, 116]"

definition K_domain_score :: pystr where
  "K_domain_score = [100, 111, 109, 97, 105, 110, 95, 115, 99, 111, 114, 101]"

definition K_score :: pystr where
  "K_score = [115, 99, 111, 114, 101]"

definition K_detailed_judgement :: pystr where
  "K_detailed_judgement = [100, 101, 116, 97, 105, 108, 101, 100, 95, 106, 117, 100, 103, 101, 109, 101, 110, 116]"

definition K_error :: pystr where
  "K_error = [101, 114, 114, 111, 114]"

definition K_traceback :: pystr where
  "K_traceback = [116, 114, 97, 99, 101, 98, 97, 99, 107]"

definition UNSUPPORT_TASK :: pystr where
  "UNSUPPORT_TASK = [85, 110, 115, 117, 112, 112, 111, 114, 116, 32, 116, 97, 115, 107]"

text \<open>
  A stand-in for \<open>json.loads\<close>, used to evaluate statements that quantify over the
  parser. It reads four documents and nothing else: the empty array \<open>[]\<close>, the empty
  object \<open>{}\<close>, and the two run records
  \<^verbatim>\<open>{"prompt_id": 0, "score": 100}\<close> and \<^verbatim>\<open>{"prompt_id": 1, "score": 100}\<close>.
\<close>

definition RECORD0_TEXT :: pystr where
  "RECORD0_TEXT = [123, 34, 112, 114, 111, 109, 112, 116, 95, 105, 100, 34, 58, 32, 48, 44, 32, 34, 115, 99, 111, 114, 101, 34, 58, 32, 49, 48, 48, 125]"

definition RECORD1_TEXT :: pystr where
  "RECORD1_TEXT = [123, 34, 112, 114, 111, 109, 112, 116, 95, 105, 100, 34, 58, 32, 49, 44, 32, 34, 115, 99, 111, 114, 101, 34, 58, 32, 49, 48, 48, 125]"

definition record0 :: json where
  "record0 = JObj [(K_prompt_id, JNum 0), (K_score, JNum 100)]"

definition record1 :: json where
  "record1 = JObj [(K_prompt_id, JNum 1), (K_score, JNum 100)]"

definition toy_loads :: "pystr \<Rightarrow> json option" where
  "toy_loads s =
     (if py_strip s = [91, 93] then Some (JArr [])
      else if py_strip s = [123, 125] then Some (JObj [])
      else if py_strip s = RECORD0_TEXT then Some record0
      else if py_strip s = RECORD1_TEXT then Some record1
      else None)"

text \<open>A task (the pydantic class \<open>DISCOX\<close>).\<close>

record DISCOX =
  prompt_id :: int
  prompt :: pystr
  reference_list :: pystr
  ori_text :: pystr
  primary_domain :: pystr
  secondary_domain :: pystr

text \<open>
  The module \<open>eval.prompts\<close> (imported with \<open>*\<close>) is not part of the sources at hand: its
  eighteen prompt constants are parameters, collected in a record.
\<close>

record prompts =
  instruct_sp :: pystr
  instruct_up :: pystr
  accuracy_sp :: pystr
  up :: pystr
  checkpoints_sp :: pystr
  checkpoints_up :: pystr
  fluency_sp :: pystr
  appropiate_sp :: pystr
  self_critique_sp :: pystr
  self_critique_up :: pystr
  accuracy_final_sp :: pystr
  accuracy_final_up :: pystr
  appropiate_final_sp :: pystr
  appropiate_final_up :: pystr
  checkpoints_final_sp :: pystr
  checkpoints_final_up :: pystr
  fluency_final_sp :: pystr
  fluency_final_up :: pystr

text \<open>
  The keyword arguments \<open>litellm_generate\<close> passes to \<open>litellm.completion\<close>
  (\<open>temperature\<close> and \<open>max_tokens\<close> are passed only when they are not \<open>None\<close>).
\<close>

type_synonym message = "pystr \<times> pystr"

record completion_kwargs =
  kw_model :: pystr
  kw_top_p :: "real option"
  kw_messages :: "message list"
  kw_api_base :: pystr
  kw_api_key :: pystr
  kw_temperature :: "real option"
  kw_max_tokens :: "int option"

text \<open>
  What the code takes from outside: the process environment; the model service
  (\<open>completion n kwargs\<close> is the outcome of the call \<open>litellm.completion(**kwargs)\<close> followed by
  \<open>response["choices"][0]["message"]["content"]\<close>, when \<open>n\<close> calls were made before: an
  exception, a null content, or a text); the library functions \<open>json.loads\<close> (\<open>None\<close>: it
  raises), \<open>str.format\<close>, \<open>str\<close> of an exception and \<open>traceback.format_exc\<close>; and the
  prompts.
\<close>

record externals =
  environ :: "pystr \<rightharpoonup> pystr"
  completion :: "nat \<Rightarrow> completion_kwargs \<Rightarrow> error + pystr option"
  json_loads :: "pystr \<Rightarrow> json option"
  str_format :: "pystr \<Rightarrow> (pystr \<times> json) list \<Rightarrow> error + pystr"
  str_of_error :: "error \<Rightarrow> pystr"
  format_exc :: "error \<Rightarrow> pystr"
  the_prompts :: prompts

text \<open>The state threaded through the pipeline is the log of the calls made to the model
  service, oldest first.\<close>

type_synonym call_log = "completion_kwargs list"

text \<open>\<open>litellm_generate\<close>: every exception inside its \<open>try\<close> (a missing environment
  variable, a failure of the service) becomes the result \<open>None\<close>.\<close>

definition litellm_generate ::
  "externals \<Rightarrow> message list \<Rightarrow> pystr \<Rightarrow> real option \<Rightarrow> int option \<Rightarrow> bool \<Rightarrow> real option
     \<Rightarrow> call_log \<Rightarrow> pystr option \<times> call_log" where
  "litellm_generate ext messages model temperature max_tokens judging_mode top_p calls =
     (let temperature = (if judging_mode then Some 0 else temperature);
          top_p = (if judging_mode then Some (7 / 10) else top_p)
      in case environ ext (if \<not> judging_mode then CANDIDATE_API_BASE else JUDGE_API_BASE) of
           None \<Rightarrow> (None, calls)
         | Some api_base \<Rightarrow>
             (case environ ext (if \<not> judging_mode then CANDIDATE_API_KEY else JUDGE_API_KEY) of
                None \<Rightarrow> (None, calls)
              | Some api_key \<Rightarrow>
                  (let kwargs = \<lparr>kw_model = model, kw_top_p = top_p, kw_messages = messages,
                                 kw_api_base = api_base, kw_api_key = api_key,
                                 kw_temperature = temperature, kw_max_tokens = max_tokens\<rparr>
                   in case completion ext (length calls) kwargs of
                        Inl e \<Rightarrow> (None, calls @ [kwargs])
                      | Inr content \<Rightarrow> (content, calls @ [kwargs]))))"

text \<open>\<open>eval_result_by_llm\<close>: \<open>up.format(**kwargs)\<close> may raise; \<open>re.search\<close> inside
  \<open>extract_json_string\<close> raises \<open>TypeError\<close> when the service returned \<open>None\<close>.\<close>

definition eval_result_by_llm ::
  "externals \<Rightarrow> pystr \<Rightarrow> pystr \<Rightarrow> pystr \<Rightarrow> (pystr \<times> json) list \<Rightarrow> call_log
     \<Rightarrow> (error + pystr) \<times> call_log" where
  "eval_result_by_llm ext sp up_template judge_model kwargs calls =
     (case str_format ext up_template kwargs of
        Inl e \<Rightarrow> (Inl e, calls)
      | Inr user_prompt \<Rightarrow>
          (case litellm_generate ext [(ROLE_SYSTEM, sp), (ROLE_USER, user_prompt)] judge_model
                  None None True None calls of
             (None, calls') \<Rightarrow> (Inl TypeError, calls')
           | (Some judgeres, calls') \<Rightarrow> (Inr (extract_json_string judgeres), calls')))"

text \<open>
  The decorator \<open>safe_json_call\<close>: up to \<open>retries\<close> attempts; an attempt succeeds when the
  wrapped function returns a string that \<open>json.loads\<close> accepts (\<open>json.loads(None)\<close> raises
  \<open>TypeError\<close>); every exception of an attempt is caught; after the last failure the result
  is the empty list. The wrapped function is a state transformer on the call log (or on any
  state), the attempts left are counted down.
\<close>

fun safe_json_loop ::
  "(pystr \<Rightarrow> json option) \<Rightarrow> ('s \<Rightarrow> (error + pystr option) \<times> 's) \<Rightarrow> nat \<Rightarrow> 's \<Rightarrow> json \<times> 's" where
  "safe_json_loop loads_fn func 0 st = (JArr [], st)"
| "safe_json_loop loads_fn func (Suc n) st =
     (case func st of
        (Inl e, st') \<Rightarrow> safe_json_loop loads_fn func n st'
      | (Inr None, st') \<Rightarrow> safe_json_loop loads_fn func n st'
      | (Inr (Some res), st') \<Rightarrow>
          (case loads_fn res of
             None \<Rightarrow> safe_json_loop loads_fn func n st'
           | Some v \<Rightarrow> (v, st')))"

definition safe_json_call ::
  "(pystr \<Rightarrow> json option) \<Rightarrow> ('s \<Rightarrow> (error + pystr option) \<times> 's) \<Rightarrow> int \<Rightarrow> 's \<Rightarrow> json \<times> 's" where
  "safe_json_call loads_fn func retries st = safe_json_loop loads_fn func (nat retries) st"

text \<open>The body shared by the decorated judges:
  \<^verbatim>\<open>try: return eval_result_by_llm(...)  except Exception: return None\<close>.\<close>

definition try_eval ::
  "externals \<Rightarrow> pystr \<Rightarrow> pystr \<Rightarrow> pystr \<Rightarrow> (pystr \<times> json) list \<Rightarrow> call_log
     \<Rightarrow> (error + pystr option) \<times> call_log" where
  "try_eval ext sp up_template judge_model kwargs calls =
     (case eval_result_by_llm ext sp up_template judge_model kwargs calls of
        (Inl e, calls') \<Rightarrow> (Inr None, calls')
      | (Inr res, calls') \<Rightarrow> (Inr (Some res), calls'))"

definition opt_str :: "pystr option \<Rightarrow> json" where
  "opt_str r = (case r of None \<Rightarrow> JNull | Some s \<Rightarrow> JStr s)"

definition judge_accuracy ::
  "externals \<Rightarrow> pystr \<Rightarrow> pystr option \<Rightarrow> pystr \<Rightarrow> call_log \<Rightarrow> json \<times> call_log" where
  "judge_accuracy ext ori response judge_model =
     safe_json_call (json_loads ext)
       (try_eval ext (accuracy_sp (the_prompts ext)) (up (the_prompts ext)) judge_model
          [(K_ori_text, JStr ori), (K_response, opt_str response)]) 3"

definition judge_checkpoint ::
  "externals \<Rightarrow> pystr \<Rightarrow> pystr option \<Rightarrow> pystr \<Rightarrow> pystr \<Rightarrow> call_log \<Rightarrow> json \<times> call_log" where
  "judge_checkpoint ext ori response checkpoints judge_model =
     safe_json_call (json_loads ext)
       (try_eval ext (checkpoints_sp (the_prompts ext)) (checkpoints_up (the_prompts ext)) judge_model
          [(K_ori_text, JStr ori), (K_response, opt_str response), (K_checkpoints, JStr checkpoints)]) 3"

definition judge_fluency ::
  "externals \<Rightarrow> pystr \<Rightarrow> pystr option \<Rightarrow> pystr \<Rightarrow> call_log \<Rightarrow> json \<times> call_log" where
  "judge_fluency ext ori response judge_model =
     safe_json_call (json_loads ext)
       (try_eval ext (fluency_sp (the_prompts ext)) (up (the_prompts ext)) judge_model
          [(K_ori_text, JStr ori), (K_response, opt_str response)]) 3"

definition judge_appropiate ::
  "externals \<Rightarrow> pystr \<Rightarrow> pystr option \<Rightarrow> pystr \<Rightarrow> call_log \<Rightarrow> json \<times> call_log" where
  "judge_appropiate ext ori response judge_model =
     safe_json_call (json_loads ext)
       (try_eval ext (appropiate_sp (the_prompts ext)) (up (the_prompts ext)) judge_model
          [(K_ori_text, JStr ori), (K_response, opt_str response)]) 3"

definition self_critique_judge ::
  "externals \<Rightarrow> json \<Rightarrow> json \<Rightarrow> json \<Rightarrow> json \<Rightarrow> pystr \<Rightarrow> call_log \<Rightarrow> (error + pystr) \<times> call_log" where
  "self_critique_judge ext acc flu ckpt appropiate judge_model =
     eval_result_by_llm ext (self_critique_sp (the_prompts ext)) (self_critique_up (the_prompts ext))
       judge_model
       [(K_accuracy_judge_result, acc), (K_fluency_judge_result, flu),
        (K_checkpoints_judge_result, ckpt), (K_style_judge_result, appropiate)]"

definition final_judge ::
  "externals \<Rightarrow> pystr \<Rightarrow> pystr \<Rightarrow> pystr \<Rightarrow> (pystr \<times> json) list \<Rightarrow> call_log \<Rightarrow> json \<times> call_log" where
  "final_judge ext sp up_template judge_model kwargs =
     safe_json_call (json_loads ext) (try_eval ext sp up_template judge_model kwargs) 3"

text \<open>
  \<open>metrics\<close>. The gate: \<open>re.search\<close> of the gate pattern in the gate judge's text, and the
  early return when the captured character is U+662F. The result is the score tuple, its
  sum and the dictionary \<open>detailed_judgement\<close> (its keys in insertion order).
\<close>

definition metrics ::
  "externals \<Rightarrow> DISCOX \<Rightarrow> pystr option \<Rightarrow> pystr \<Rightarrow> call_log
     \<Rightarrow> (error + ((int \<times> int \<times> int) \<times> int \<times> json)) \<times> call_log" where
  "metrics ext task response judge_model calls =
     (let P = the_prompts ext in
      case eval_result_by_llm ext (instruct_sp P) (instruct_up P) judge_model
             [(K_prompt, JStr (ori_text task)), (K_response, opt_str response)] calls of
        (Inl e, calls1) \<Rightarrow> (Inl e, calls1)
      | (Inr instruct_res, calls1) \<Rightarrow>
          if re_search GATE_PATTERN instruct_res = Some YES
          then (Inr ((0, 0, 0), 0, JObj [(K_instruction_following, JStr instruct_res)]), calls1)
          else
            (case judge_accuracy ext (ori_text task) response judge_model calls1 of (acc_res, calls2) \<Rightarrow>
            (case judge_checkpoint ext (ori_text task) response (reference_list task) judge_model calls2 of
               (ckpt_res, calls3) \<Rightarrow>
            (case judge_fluency ext (ori_text task) response judge_model calls3 of (flu_res, calls4) \<Rightarrow>
            (case judge_appropiate ext (ori_text task) response judge_model calls4 of
               (appropiate_res, calls5) \<Rightarrow>
            (case self_critique_judge ext acc_res flu_res ckpt_res appropiate_res judge_model calls5 of
               (Inl e, calls6) \<Rightarrow> (Inl e, calls6)
             | (Inr adjustment_res, calls6) \<Rightarrow>
            (case final_judge ext (accuracy_final_sp P) (accuracy_final_up P) judge_model
                    [(K_accuracy_judge_result, acc_res), (K_adjustment, JStr adjustment_res)] calls6 of
               (acc_finalres, calls7) \<Rightarrow>
            (case final_judge ext (appropiate_final_sp P) (appropiate_final_up P) judge_model
                    [(K_style_judge_result, appropiate_res), (K_adjustment, JStr adjustment_res)] calls7 of
               (appropiate_finalres, calls8) \<Rightarrow>
            (case final_judge ext (checkpoints_final_sp P) (checkpoints_final_up P) judge_model
                    [(K_checkpoints_judge_result, ckpt_res), (K_adjustment, JStr adjustment_res)] calls8 of
               (ckpt_finalres, calls9) \<Rightarrow>
            (case final_judge ext (fluency_final_sp P) (fluency_final_up P) judge_model
                    [(K_fluency_judge_result, flu_res), (K_adjustment, JStr adjustment_res)] calls9 of
               (flu_finalres, calls10) \<Rightarrow>
            (case calculate_score acc_finalres ckpt_finalres flu_finalres appropiate_finalres of
               Inl e \<Rightarrow> (Inl e, calls10)
             | Inr (a, f, p) \<Rightarrow>
                 (Inr ((a, f, p), a + f + p,
                       JObj [(K_instruction_following, JStr instruct_res),
                             (K_initial_judgement,
                                JObj [(K_accuracy, acc_res), (K_checkpoints, ckpt_res),
                                      (K_fluency, flu_res), (K_appropiate, appropiate_res)]),
                             (K_self_critique, JStr adjustment_res),
                             (K_accuracy, acc_finalres),
                             (K_checkpoints, ckpt_finalres),
                             (K_fluency, flu_finalres),
                             (K_appropiate, appropiate_finalres)]),
                  calls10))))))))))))"

text \<open>An attempt of the wrapped function fails when it raises, returns \<open>None\<close>, or returns
  a text that \<open>json.loads\<close> rejects.\<close>

definition attempt_fails ::
  "(pystr \<Rightarrow> json option) \<Rightarrow> ('s \<Rightarrow> (error + pystr option) \<times> 's) \<Rightarrow> 's \<Rightarrow> bool" where
  "attempt_fails loads_fn func st =
     (case fst (func st) of
        Inl e \<Rightarrow> True
      | Inr None \<Rightarrow> True
      | Inr (Some res) \<Rightarrow> loads_fn res = None)"

text \<open>The state a call of the wrapped function leaves behind.\<close>

definition state_after :: "('s \<Rightarrow> 'r \<times> 's) \<Rightarrow> 's \<Rightarrow> 's" where
  "state_after func st = snd (func st)"


section \<open>One task (run\_tasks.py, run\_task and wrapped\_run)\<close>

text \<open>\<open>task.model_dump(by_alias=True)\<close>: the fields in declaration order, the two domains
  under their aliases.\<close>

definition model_dump :: "DISCOX \<Rightarrow> (pystr \<times> json) list" where
  "model_dump task =
     [(K_prompt_id, JNum (of_int (prompt_id task))),
      (K_prompt, JStr (prompt task)),
      (K_reference_list, JStr (reference_list task)),
      (K_ori_text, JStr (ori_text task)),
      (K_Primary_Domain, JStr (primary_domain task)),
      (K_Secondary_Domain, JStr (secondary_domain task))]"

definition run_task ::
  "externals \<Rightarrow> DISCOX \<Rightarrow> pystr \<Rightarrow> pystr \<Rightarrow> call_log \<Rightarrow> (error + json) \<times> call_log" where
  "run_task ext task model judgemodel calls =
     (case litellm_generate ext [(ROLE_USER, prompt task)] model None (Some 20000) False None calls of
        (output, calls1) \<Rightarrow>
     (case metrics ext task output judgemodel calls1 of
        (Inl e, calls2) \<Rightarrow> (Inl e, calls2)
      | (Inr ((a, f, p), final_score, detailed_judgement), calls2) \<Rightarrow>
          (Inr (JObj (model_dump task @
                  [(K_model_output, opt_str output),
                   (K_domain_score, JArr [JNum (of_int a), JNum (of_int f), JNum (of_int p)]),
                   (K_score, JNum (of_int final_score)),
                   (K_detailed_judgement, detailed_judgement)])),
           calls2)))"

text \<open>\<open>wrapped_run\<close>: every exception of \<open>run_task\<close> becomes an error record; so does a
  result that has the key \<open>"error"\<close>, through the \<open>RuntimeError\<close> raised inside the \<open>try\<close>.\<close>

definition error_record :: "pystr \<Rightarrow> pystr \<Rightarrow> json" where
  "error_record msg trace = JObj [(K_error, JStr msg), (K_traceback, JStr trace)]"

definition wrapped_run ::
  "externals \<Rightarrow> DISCOX \<Rightarrow> pystr \<Rightarrow> pystr \<Rightarrow> call_log \<Rightarrow> json \<times> call_log" where
  "wrapped_run ext task model judgemodel calls =
     (case run_task ext task model judgemodel calls of
        (Inl e, calls') \<Rightarrow> (error_record (str_of_error ext e) (format_exc ext e), calls')
      | (Inr res, calls') \<Rightarrow>
          (case py_contains K_error res of
             Inl e \<Rightarrow> (error_record (str_of_error ext e) (format_exc ext e), calls')
           | Inr has_error \<Rightarrow>
               if has_error then (error_record UNSUPPORT_TASK (format_exc ext RuntimeError), calls')
               else (res, calls')))"


subsection \<open>Stub collaborators for evaluation\<close>

text \<open>
  Three model services that answer every call alike: with the marker phrase followed by
  U+662F (\<open>gate_yes_ext\<close>), with no content (\<open>silent_ext\<close>), and with the text \<open>[]\<close>
  (\<open>ok_ext\<close>). The environment has the four variables, \<open>str.format\<close> returns the
  template, the parser is \<open>toy_loads\<close>, and all prompts are empty.
\<close>

definition stub_prompts :: prompts where
  "stub_prompts =
     \<lparr>instruct_sp = [], instruct_up = [], accuracy_sp = [], up = [], checkpoints_sp = [],
      checkpoints_up = [], fluency_sp = [], appropiate_sp = [], self_critique_sp = [],
      self_critique_up = [], accuracy_final_sp = [], accuracy_final_up = [],
      appropiate_final_sp = [], appropiate_final_up = [], checkpoints_final_sp = [],
      checkpoints_final_up = [], fluency_final_sp = [], fluency_final_up = []\<rparr>"

definition stub_ext :: "pystr option \<Rightarrow> externals" where
  "stub_ext answer =
     \<lparr>environ = map_of [(JUDGE_API_BASE, []), (JUDGE_API_KEY, []),
                         (CANDIDATE_API_BASE, []), (CANDIDATE_API_KEY, [])],
      completion = (\<lambda>n kwargs. Inr answer),
      json_loads = toy_loads,
      str_format = (\<lambda>template kwargs. Inr template),
      str_of_error = (\<lambda>e. []),
      format_exc = (\<lambda>e. []),
      the_prompts = stub_prompts\<rparr>"


definition silent_ext :: externals where
  "silent_ext = stub_ext None"


definition task0 :: DISCOX where
  "task0 = \<lparr>prompt_id = 0, prompt = [], reference_list = [], ori_text = [],
            primary_domain = [], secondary_domain = []\<rparr>"


text \<open>The keyword arguments of a judging call of the stubs, and of a candidate call.\<close>

definition stub_judge_call :: completion_kwargs where
  "stub_judge_call =
     \<lparr>kw_model = [], kw_top_p = Some (7 / 10), kw_messages = [(ROLE_SYSTEM, []), (ROLE_USER, [])],
      kw_api_base = [], kw_api_key = [], kw_temperature = Some 0, kw_max_tokens = None\<rparr>"

definition stub_candidate_call :: completion_kwargs where
  "stub_candidate_call =
     \<lparr>kw_model = [], kw_top_p = None, kw_messages = [(ROLE_USER, [])],
      kw_api_base = [], kw_api_key = [], kw_temperature = None, kw_max_tokens = Some 20000\<rparr>"

text \<open>Two wrapped functions on a counter: \<open>flaky\<close> raises, then returns an unparsable
  text, then returns \<open>{}\<close>; \<open>failing\<close> raises or returns \<open>None\<close> in turn, for ever.\<close>

definition flaky :: "nat \<Rightarrow> (error + pystr option) \<times> nat" where
  "flaky n = (if n = 0 then Inl RuntimeError else if n = 1 then Inr (Some [91]) else Inr (Some [123, 125]), Suc n)"

definition failing :: "nat \<Rightarrow> (error + pystr option) \<times> nat" where
  "failing n = (if even n then Inl RuntimeError else Inr None, Suc n)"


section \<open>The task runner (run\_tasks.py, get\_latest\_jsonl\_file and run\_all\_sync)\<close>

text \<open>The literals of the runner, by code point: \<open>"/"\<close>, \<open>"-"\<close>, \<open>"*"\<close>,
  \<open>"./results"\<close>, \<open>"results"\<close>, \<open>"*.jsonl"\<close>, \<open>"partial.jsonl"\<close>, \<open>"result.json"\<close>,
  the class name \<open>"DISCOX"\<close> and the newline.\<close>

definition SLASH :: pystr where
  "SLASH = [47]"

definition DASH :: pystr where
  "DASH = [45]"

definition STAR :: pystr where
  "STAR = [42]"

definition RESULTS_FOLDER :: pystr where
  "RESULTS_FOLDER = [46, 47, 114, 101, 115, 117, 108, 116, 115]"

definition OUTPUT_DIR :: pystr where
  "OUTPUT_DIR = [114, 101, 115, 117, 108, 116, 115]"

definition JSONL_SUFFIX :: pystr where
  "JSONL_SUFFIX = [42, 46, 106, 115, 111, 110, 108]"

definition PARTIAL_JSONL :: pystr where
  "PARTIAL_JSONL = [112, 97, 114, 116, 105, 97, 108, 46, 106, 115, 111, 110, 108]"

definition RESULT_JSON :: pystr where
  "RESULT_JSON = [114, 101, 115, 117, 108, 116, 46, 106, 115, 111, 110]"

definition CLASS_NAME :: pystr where
  "CLASS_NAME = [68, 73, 83, 67, 79, 88]"

definition NEWLINE :: pystr where
  "NEWLINE = [10]"

text \<open>\<open>s.replace(old, new)\<close> for a non-empty \<open>old\<close>: every occurrence, left to right.\<close>

function py_replace :: "pystr \<Rightarrow> pystr \<Rightarrow> pystr \<Rightarrow> pystr" where
  "py_replace old new [] = []"
| "py_replace old new (x # xs) =
     (if old \<noteq> [] \<and> prefix old (x # xs)
      then new @ py_replace old new (drop (length old) (x # xs))
      else x # py_replace old new xs)"
  by pat_completeness auto
termination
  by (relation "measure (\<lambda>(old, new, s). length s)") (auto simp: neq_Nil_conv)

text \<open>
  The world of the runner: the checkpoint files (path to lines), the final result files, and
  the trace of what the runner did to the file system and the worker pool, oldest first.
\<close>

datatype event =
    Glob pystr
  | ReadLines pystr
  | Makedirs pystr
  | Submit int
  | Append pystr pystr
  | WriteFinal pystr

record final_result =
  average_accuracy :: real
  result_model :: pystr
  detailed_results :: "json list"

record world =
  jsonl_files :: "pystr \<rightharpoonup> pystr list"
  final_files :: "pystr \<rightharpoonup> final_result"
  events :: "event list"

text \<open>
  What the runner takes from outside besides the pipeline's collaborators: \<open>glob.glob\<close> on
  a pattern, \<open>os.path.getctime\<close>, the formatted time of \<open>datetime.now()\<close>, \<open>json.dumps\<close>,
  and the order in which the workers complete (\<open>picks\<close>, read by \<open>as_completed\<close> below).
\<close>

record runner_env =
  glob_glob :: "pystr \<Rightarrow> pystr list"
  getctime :: "pystr \<Rightarrow> real"
  formatted_time :: pystr
  json_dumps :: "json \<Rightarrow> pystr"
  picks :: "nat list"

text \<open>\<open>max(all_files, key=os.path.getctime)\<close>: the first of the files with the largest key.\<close>

fun py_max_by :: "('a \<Rightarrow> real) \<Rightarrow> 'a \<Rightarrow> 'a list \<Rightarrow> 'a" where
  "py_max_by key best [] = best"
| "py_max_by key best (x # xs) = py_max_by key (if key best < key x then x else best) xs"

definition get_latest_jsonl_file ::
  "runner_env \<Rightarrow> pystr \<Rightarrow> pystr \<Rightarrow> pystr \<Rightarrow> world \<Rightarrow> pystr option \<times> world" where
  "get_latest_jsonl_file renv folder_path modelname taskname w =
     (let pattern = folder_path @ SLASH @ STAR @ modelname @ STAR @ taskname @ JSONL_SUFFIX;
          w' = w\<lparr>events := events w @ [Glob pattern]\<rparr>
      in case glob_glob renv pattern of
           [] \<Rightarrow> (None, w')
         | f # fs \<Rightarrow> (Some (py_max_by (getctime renv) f fs), w'))"

text \<open>
  \<^verbatim>\<open>[json.loads(line)["prompt_id"] for line in lines if "prompt_id" in json.loads(line)]\<close>:
  a line that does not parse, or parses to a value that is no container, raises.
\<close>

fun already_run :: "(pystr \<Rightarrow> json option) \<Rightarrow> pystr list \<Rightarrow> error + json list" where
  "already_run loads_fn [] = Inr []"
| "already_run loads_fn (line # lines) =
     (case loads_fn line of
        None \<Rightarrow> Inl JSONDecodeError
      | Some v \<Rightarrow>
          (case py_contains K_prompt_id v of
             Inl e \<Rightarrow> Inl e
           | Inr present \<Rightarrow>
               if present
               then (case py_getitem v K_prompt_id of
                       Inl e \<Rightarrow> Inl e
                     | Inr pid \<Rightarrow>
                         (case already_run loads_fn lines of
                            Inl e \<Rightarrow> Inl e
                          | Inr rest \<Rightarrow> Inr (pid # rest)))
               else already_run loads_fn lines))"

text \<open>\<open>[json.loads(line) for line in lines]\<close>.\<close>

fun load_lines :: "(pystr \<Rightarrow> json option) \<Rightarrow> pystr list \<Rightarrow> error + json list" where
  "load_lines loads_fn [] = Inr []"
| "load_lines loads_fn (line # lines) =
     (case loads_fn line of
        None \<Rightarrow> Inl JSONDecodeError
      | Some v \<Rightarrow>
          (case load_lines loads_fn lines of Inl e \<Rightarrow> Inl e | Inr rest \<Rightarrow> Inr (v # rest)))"

text \<open>\<open>task.prompt_id not in already_run_data\<close>: an \<open>int\<close> equals a JSON number of the
  same value and, as Python has it, the booleans \<open>True\<close> and \<open>False\<close> as 1 and 0.\<close>

fun py_int_eq :: "int \<Rightarrow> json \<Rightarrow> bool" where
  "py_int_eq i (JNum r) = (r = of_int i)"
| "py_int_eq i (JBool b) = (i = (if b then 1 else 0))"
| "py_int_eq i JNull = False"
| "py_int_eq i (JStr s) = False"
| "py_int_eq i (JArr xs) = False"
| "py_int_eq i (JObj kv) = False"

definition py_int_in :: "int \<Rightarrow> json list \<Rightarrow> bool" where
  "py_int_in i vs = list_ex (py_int_eq i) vs"

text \<open>
  \<open>as_completed\<close> yields every future once, in the order of completion. That order is not
  determined by the program; it is read from \<open>picks\<close>: each pick chooses, among the futures
  not yet yielded, the next one to complete.
\<close>

function as_completed :: "nat list \<Rightarrow> 'a list \<Rightarrow> 'a list" where
  "as_completed ps [] = []"
| "as_completed [] (x # xs) = x # as_completed [] xs"
| "as_completed (p # ps) (x # xs) =
     (let i = p mod length (x # xs)
      in (x # xs) ! i # as_completed ps (take i (x # xs) @ drop (Suc i) (x # xs)))"
  by pat_completeness auto
termination
  by (relation "measure (\<lambda>(ps, xs). length xs)") (auto simp: Let_def)

text \<open>\<^verbatim>\<open>[v["score"] for v in results if "score" in v]\<close> and \<open>sum\<close> over it.\<close>

fun valid_scores :: "json list \<Rightarrow> error + json list" where
  "valid_scores [] = Inr []"
| "valid_scores (v # vs) =
     (case py_contains K_score v of
        Inl e \<Rightarrow> Inl e
      | Inr present \<Rightarrow>
          if present
          then (case py_getitem v K_score of
                  Inl e \<Rightarrow> Inl e
                | Inr sc \<Rightarrow>
                    (case valid_scores vs of Inl e \<Rightarrow> Inl e | Inr rest \<Rightarrow> Inr (sc # rest)))
          else valid_scores vs)"

fun py_sum :: "real \<Rightarrow> json list \<Rightarrow> error + real" where
  "py_sum subtotal [] = Inr subtotal"
| "py_sum subtotal (JNum r # vs) = py_sum (subtotal + r) vs"
| "py_sum subtotal (JBool b # vs) = py_sum (subtotal + (if b then 1 else 0)) vs"
| "py_sum subtotal (v # vs) = Inl TypeError"

definition average_of :: "json list \<Rightarrow> error + real" where
  "average_of results =
     (case valid_scores results of
        Inl e \<Rightarrow> Inl e
      | Inr valid \<Rightarrow>
          if valid = [] then Inr 0
          else (case py_sum 0 valid of
                  Inl e \<Rightarrow> Inl e
                | Inr subtotal \<Rightarrow> Inr (subtotal / (real (length valid) * 100))))"

text \<open>Appending one line to a checkpoint file (\<open>open(path, "a")\<close> creates it).\<close>

definition append_line :: "pystr \<Rightarrow> pystr \<Rightarrow> world \<Rightarrow> world" where
  "append_line path line w =
     w\<lparr>jsonl_files := (jsonl_files w)
            (path \<mapsto> (case jsonl_files w path of None \<Rightarrow> [] | Some ls \<Rightarrow> ls) @ [line]),
       events := events w @ [Append path line]\<rparr>"

text \<open>The loop over the completed futures: each result is appended to \<open>results\<close> and
  written to the checkpoint file at once.\<close>

fun collect :: "runner_env \<Rightarrow> pystr \<Rightarrow> json list \<Rightarrow> json list \<Rightarrow> world \<Rightarrow> json list \<times> world" where
  "collect renv jsonl_file results [] w = (results, w)"
| "collect renv jsonl_file results (result # rest) w =
     collect renv jsonl_file (results @ [result]) rest
       (append_line jsonl_file (json_dumps renv result @ NEWLINE) w)"

text \<open>
  The resume decision at the start of \<open>run_all_sync\<close>: the tasks still to run, the seed of
  \<open>results\<close>, and \<open>last_run\<close> (reset to \<open>None\<close> when the checkpoint has at least as many
  identified records as there are tasks).
\<close>

definition resume ::
  "(pystr \<Rightarrow> json option) \<Rightarrow> DISCOX list \<Rightarrow> pystr option \<Rightarrow> world
     \<Rightarrow> (error + (DISCOX list \<times> json list \<times> pystr option)) \<times> world" where
  "resume loads_fn tasks last_run w =
     (case last_run of
        None \<Rightarrow> (Inr (tasks, [], None), w)
      | Some path \<Rightarrow>
          (case jsonl_files w path of
             None \<Rightarrow> (Inl OSError, w)
           | Some lines \<Rightarrow>
               (let w' = w\<lparr>events := events w @ [ReadLines path]\<rparr>
                in case already_run loads_fn lines of
                     Inl e \<Rightarrow> (Inl e, w')
                   | Inr already_run_data \<Rightarrow>
                       if length already_run_data < length tasks
                       then (case load_lines loads_fn lines of
                               Inl e \<Rightarrow> (Inl e, w')
                             | Inr results \<Rightarrow>
                                 (Inr ([task \<leftarrow> tasks. \<not> py_int_in (prompt_id task) already_run_data],
                                       results, Some path), w'))
                       else (Inr (tasks, [], None), w'))))"

text \<open>What a worker returns for a task: the result of \<open>wrapped_run\<close>, run with a call
  log of its own.\<close>

definition worker :: "externals \<Rightarrow> pystr \<Rightarrow> pystr \<Rightarrow> DISCOX \<Rightarrow> json" where
  "worker ext model judgemodel task = fst (wrapped_run ext task model judgemodel [])"

text \<open>
  \<open>run_all_sync\<close>. Every worker runs \<open>wrapped_run\<close> on its task with a call log of its own.
  \<open>ThreadPoolExecutor\<close> rejects a non-positive \<open>max_workers\<close> with \<open>ValueError\<close>. The
  counter of completed tasks serves the progress bar only and is not modelled. The result is
  the pair \<open>(results, acc)\<close>.
\<close>

definition run_all_sync ::
  "runner_env \<Rightarrow> externals \<Rightarrow> DISCOX list \<Rightarrow> pystr \<Rightarrow> pystr \<Rightarrow> int \<Rightarrow> world
     \<Rightarrow> (error + (json list \<times> real)) \<times> world" where
  "run_all_sync renv ext tasks model judgemodel concurrency w =
     (let modelname = py_replace SLASH DASH model in
      case tasks of
        [] \<Rightarrow> (Inl IndexError, w)
      | first_task # other_tasks \<Rightarrow>
     (let tasksname = CLASS_NAME in
      case get_latest_jsonl_file renv RESULTS_FOLDER modelname tasksname w of (last_run, w1) \<Rightarrow>
     (case resume (json_loads ext) tasks last_run w1 of
        (Inl e, w2) \<Rightarrow> (Inl e, w2)
      | (Inr (tasks', results, last_run'), w2) \<Rightarrow>
     (let w3 = w2\<lparr>events := events w2 @ [Makedirs OUTPUT_DIR]\<rparr>;
          jsonl_file = (case last_run' of
                          None \<Rightarrow> OUTPUT_DIR @ SLASH @ formatted_time renv @ DASH @ modelname @ DASH
                                    @ tasksname @ PARTIAL_JSONL
                        | Some path \<Rightarrow> path);
          final_file = (case last_run' of
                          None \<Rightarrow> OUTPUT_DIR @ SLASH @ formatted_time renv @ DASH @ modelname @ DASH
                                    @ tasksname @ RESULT_JSON
                        | Some path \<Rightarrow> py_replace PARTIAL_JSONL RESULT_JSON path)
      in if concurrency \<le> 0 then (Inl ValueError, w3)
         else
     (let w4 = w3\<lparr>events := events w3 @ map (\<lambda>task. Submit (prompt_id task)) tasks'\<rparr>;
          outcomes = map (worker ext model judgemodel) tasks'
      in case collect renv jsonl_file results (as_completed (picks renv) outcomes) w4 of
           (results', w5) \<Rightarrow>
     (case average_of results' of
        Inl e \<Rightarrow> (Inl e, w5)
      | Inr acc \<Rightarrow>
          (Inr (results', acc),
           w5\<lparr>final_files := (final_files w5)
                   (final_file \<mapsto> \<lparr>average_accuracy = acc, result_model = model,
                                   detailed_results = results'\<rparr>),
              events := events w5 @ [WriteFinal final_file]\<rparr>)))))))"


subsection \<open>Run records and the resumed run as the specification words them\<close>

text \<open>
  The identifier a record carries (a JSON object whose \<open>prompt_id\<close> is an integral
  number). A run record has an identifier and a numeric score. A result is scorable when the
  accuracy computation accepts it: an object whose score is absent or a number. The
  remaining tasks of a resumed run are those whose identifier no checkpoint record carries.
\<close>

definition record_id :: "json \<Rightarrow> int option" where
  "record_id v =
     (case v of
        JObj kv \<Rightarrow>
          (case map_of kv K_prompt_id of
             Some (JNum r) \<Rightarrow> if r \<in> \<int> then Some \<lfloor>r\<rfloor> else None
           | _ \<Rightarrow> None)
      | _ \<Rightarrow> None)"





subsection \<open>A stub file system for evaluation\<close>










section \<open>Properties of the score calculator\<close>

lemmas vocab_defs = S_OVERALL_OK_def S_ORDINARY_def S_MAJOR_def S_SEVERE_def S_CRITICAL_def
  S_VERY_SEVERE_def S_EXTREMELY_CRITICAL_def S_WRONG_def S_RIGHT_def S_NO_PROBLEM_def
  S_HAS_PROBLEM_def

lemma dict_ops_hashable:
  "hashable v \<Longrightarrow>
   (case dict_contains m v of Inl e \<Rightarrow> Inl e | Inr known \<Rightarrow> if known then dict_get m v else Inr d)
     = Inr (case v of JStr s \<Rightarrow> (case map_of m s of None \<Rightarrow> d | Some p \<Rightarrow> p) | _ \<Rightarrow> d)"
  by (cases v) (auto split: option.splits)

lemma issue_penalty_record:
  assumes "issue_record key item"
  shows "issue_penalty key m d item =
     Inr (case item of JObj kv \<Rightarrow>
            (case map_of kv key of Some (JStr s) \<Rightarrow> (case map_of m s of None \<Rightarrow> d | Some p \<Rightarrow> p)
                                 | _ \<Rightarrow> d)
          | _ \<Rightarrow> d)"
proof (cases item)
  case (JObj kv)
  show ?thesis
  proof (cases "map_of kv key")
    case None
    with JObj show ?thesis by (simp add: issue_penalty_def)
  next
    case (Some v)
    with JObj assms have h: "hashable v" by (simp add: issue_record_def)
    from JObj Some show ?thesis
      by (simp add: issue_penalty_def dict_ops_hashable [OF h] split: json.splits)
  qed
qed (use assms in \<open>simp_all add: issue_record_def\<close>)

lemma accuracy_table:
  "(case map_of ACCURACY_MAPPING s of None \<Rightarrow> - 5 | Some p \<Rightarrow> p) =
     (if s = S_OVERALL_OK then 0
      else if s = S_ORDINARY \<or> s = S_MAJOR then - 5
      else if s = S_SEVERE \<or> s = S_CRITICAL then - 10
      else if s = S_VERY_SEVERE \<or> s = S_EXTREMELY_CRITICAL then - 50 else - 5)"
  by (simp add: ACCURACY_MAPPING_def vocab_defs)

lemma accuracy_penalty_record:
  "issue_record SEVERITY_KEY item \<Longrightarrow>
   issue_penalty SEVERITY_KEY ACCURACY_MAPPING (- 5) item = Inr (accuracy_penalty item)"
  by (simp add: issue_penalty_record accuracy_penalty_def severity_of_def accuracy_table
        split: json.splits option.splits)

lemma checkpoint_table:
  "(case map_of CORRECTNESS_MAPPING s of None \<Rightarrow> 0 | Some p \<Rightarrow> p) = (if s = S_WRONG then - 5 else 0)"
  by (simp add: CORRECTNESS_MAPPING_def vocab_defs)

lemma checkpoint_penalty_record:
  "issue_record VERDICT_KEY item \<Longrightarrow>
   issue_penalty VERDICT_KEY CORRECTNESS_MAPPING 0 item = Inr (checkpoint_penalty item)"
  by (simp add: issue_penalty_record checkpoint_penalty_def verdict_of_def checkpoint_table
        split: json.splits option.splits)

lemma score_loop_sum:
  "\<forall>item \<in> set items. issue_penalty key m d item = Inr (pen item) \<Longrightarrow>
   score_loop key m d s items = Inr (s + sum_list (map pen items))"
  by (induction items arbitrary: s) simp_all

lemma score_loop_returns:
  "score_loop key m d s items = Inr s' \<Longrightarrow>
   \<forall>item \<in> set items. \<forall>p. issue_penalty key m d item = Inr p \<longrightarrow> p = pen item \<Longrightarrow>
   s' = s + sum_list (map pen items)"
proof (induction items arbitrary: s)
  case Nil
  then show ?case by simp
next
  case (Cons item items)
  from Cons.prems(1) obtain p where p: "issue_penalty key m d item = Inr p"
    and rest: "score_loop key m d (s + p) items = Inr s'"
    by (auto split: sum.splits)
  from Cons.prems(2) p have "p = pen item" by simp
  moreover from Cons.IH [OF rest] Cons.prems(2) have "s' = s + p + sum_list (map pen items)"
    by simp
  ultimately show ?case by simp
qed

lemma score_loop_total:
  "list_all (issue_record key) items \<Longrightarrow> \<exists>s'. score_loop key m d s items = Inr s'"
  by (induction items arbitrary: s) (simp_all add: issue_penalty_record)

lemma issue_penalty_cases:
  assumes "issue_penalty key m d item = Inr p"
  shows "p = d \<or> (\<exists>kv s. item = JObj kv \<and> map_of kv key = Some (JStr s) \<and> map_of m s = Some p)"
proof (cases item)
  case (JObj kv)
  show ?thesis
  proof (cases "map_of kv key")
    case None
    with JObj assms show ?thesis by (simp add: issue_penalty_def)
  next
    case (Some v)
    with JObj assms show ?thesis
      by (cases v) (auto simp: issue_penalty_def split: if_splits option.splits)
  qed
qed (use assms in \<open>auto simp: issue_penalty_def split: if_splits\<close>)

lemma issue_penalty_nonpos:
  assumes "issue_penalty key m d item = Inr p" "d \<le> 0" "\<forall>e \<in> set m. snd e \<le> 0"
  shows "p \<le> 0"
proof -
  from issue_penalty_cases [OF assms(1)] show ?thesis
  proof
    assume "p = d" with assms(2) show ?thesis by simp
  next
    assume "\<exists>kv s. item = JObj kv \<and> map_of kv key = Some (JStr s) \<and> map_of m s = Some p"
    then obtain s where "map_of m s = Some p" by blast
    then have "(s, p) \<in> set m" by (rule map_of_SomeD)
    with assms(3) show ?thesis by force
  qed
qed

lemma score_loop_le:
  "score_loop key m d s items = Inr s' \<Longrightarrow> d \<le> 0 \<Longrightarrow> \<forall>e \<in> set m. snd e \<le> 0 \<Longrightarrow> s' \<le> s"
proof (induction items arbitrary: s)
  case Nil
  then show ?case by simp
next
  case (Cons item items)
  from Cons.prems(1) obtain p where p: "issue_penalty key m d item = Inr p"
    and rest: "score_loop key m d (s + p) items = Inr s'"
    by (auto split: sum.splits)
  from issue_penalty_nonpos [OF p Cons.prems(2,3)] Cons.IH [OF rest Cons.prems(2,3)]
  show ?case by simp
qed

lemma calculate_score_InrD:
  assumes "calculate_score acc ckpt flu app = Inr (a, f, p)"
  obtains acc_items s1 ckpt_items s2 flu_items s3 app_items s4 where
    "py_iter acc = Inr acc_items"
    "score_loop SEVERITY_KEY ACCURACY_MAPPING (- 5) 60 acc_items = Inr s1"
    "py_iter ckpt = Inr ckpt_items"
    "score_loop VERDICT_KEY CORRECTNESS_MAPPING 0 s1 ckpt_items = Inr s2"
    "py_iter flu = Inr flu_items"
    "score_loop SEVERITY_KEY FLUENCY_MAPPING 0 20 flu_items = Inr s3"
    "py_iter app = Inr app_items"
    "score_loop SEVERITY_KEY APPROPIATE_MAPPING 0 20 app_items = Inr s4"
    "a = max s2 0" "f = max s3 0" "p = max s4 0"
  using assms unfolding calculate_score_def Let_def
  by (auto split: sum.splits)

lemma fluency_penalty_any:
  assumes "issue_penalty SEVERITY_KEY FLUENCY_MAPPING 0 item = Inr p"
  shows "p = fluency_penalty item"
proof -
  from issue_penalty_cases [OF assms] show ?thesis
  proof
    assume p0: "p = 0"
    show ?thesis
    proof (cases "flagged item")
      case True
      then obtain kv where "item = JObj kv" "map_of kv SEVERITY_KEY = Some (JStr S_HAS_PROBLEM)"
        by (auto simp: flagged_def severity_of_def split: json.splits)
      with assms have "p = - 2"
        by (simp add: issue_penalty_def FLUENCY_MAPPING_def vocab_defs)
      with p0 show ?thesis by simp
    next
      case False
      with p0 show ?thesis by (simp add: fluency_penalty_def)
    qed
  next
    assume "\<exists>kv s. item = JObj kv \<and> map_of kv SEVERITY_KEY = Some (JStr s) \<and> map_of FLUENCY_MAPPING s = Some p"
    then show ?thesis
      by (auto simp: fluency_penalty_def flagged_def severity_of_def FLUENCY_MAPPING_def vocab_defs
               split: if_splits)
  qed
qed

lemma appropiate_penalty_any:
  assumes "issue_penalty SEVERITY_KEY APPROPIATE_MAPPING 0 item = Inr p"
  shows "p = appropiate_penalty item"
proof -
  from issue_penalty_cases [OF assms] show ?thesis
  proof
    assume p0: "p = 0"
    show ?thesis
    proof (cases "flagged item")
      case True
      then obtain kv where "item = JObj kv" "map_of kv SEVERITY_KEY = Some (JStr S_HAS_PROBLEM)"
        by (auto simp: flagged_def severity_of_def split: json.splits)
      with assms have "p = - 5"
        by (simp add: issue_penalty_def APPROPIATE_MAPPING_def vocab_defs)
      with p0 show ?thesis by simp
    next
      case False
      with p0 show ?thesis by (simp add: appropiate_penalty_def)
    qed
  next
    assume "\<exists>kv s. item = JObj kv \<and> map_of kv SEVERITY_KEY = Some (JStr s) \<and> map_of APPROPIATE_MAPPING s = Some p"
    then show ?thesis
      by (auto simp: appropiate_penalty_def flagged_def severity_of_def APPROPIATE_MAPPING_def vocab_defs
               split: if_splits)
  qed
qed

lemma sum_flagged:
  "sum_list (map (\<lambda>item. if flagged item then c else (0::int)) items)
     = c * int (length (filter flagged items))"
  by (induction items) (simp_all add: algebra_simps)

lemma fluency_penalty_record:
  "issue_record SEVERITY_KEY item \<Longrightarrow>
   issue_penalty SEVERITY_KEY FLUENCY_MAPPING 0 item = Inr (fluency_penalty item)"
  using fluency_penalty_any [of item] by (auto simp: issue_penalty_record)

lemma appropiate_penalty_record:
  "issue_record SEVERITY_KEY item \<Longrightarrow>
   issue_penalty SEVERITY_KEY APPROPIATE_MAPPING 0 item = Inr (appropiate_penalty item)"
  using appropiate_penalty_any [of item] by (auto simp: issue_penalty_record)

lemma calculate_score_records:
  assumes "list_all (issue_record SEVERITY_KEY) acc" "list_all (issue_record VERDICT_KEY) ckpt"
    "list_all (issue_record SEVERITY_KEY) flu" "list_all (issue_record SEVERITY_KEY) app"
  shows "calculate_score (JArr acc) (JArr ckpt) (JArr flu) (JArr app) =
     Inr (max 0 (60 + sum_list (map accuracy_penalty acc) + sum_list (map checkpoint_penalty ckpt)),
          max 0 (20 + sum_list (map fluency_penalty flu)),
          max 0 (20 + sum_list (map appropiate_penalty app)))"
proof -
  have 1: "score_loop SEVERITY_KEY ACCURACY_MAPPING (- 5) s acc
             = Inr (s + sum_list (map accuracy_penalty acc))" for s
    using assms(1) by (intro score_loop_sum) (simp add: list_all_iff accuracy_penalty_record)
  have 2: "score_loop VERDICT_KEY CORRECTNESS_MAPPING 0 s ckpt
             = Inr (s + sum_list (map checkpoint_penalty ckpt))" for s
    using assms(2) by (intro score_loop_sum) (simp add: list_all_iff checkpoint_penalty_record)
  have 3: "score_loop SEVERITY_KEY FLUENCY_MAPPING 0 s flu
             = Inr (s + sum_list (map fluency_penalty flu))" for s
    using assms(3) by (intro score_loop_sum) (simp add: list_all_iff fluency_penalty_record)
  have 4: "score_loop SEVERITY_KEY APPROPIATE_MAPPING 0 s app
             = Inr (s + sum_list (map appropiate_penalty app))" for s
    using assms(4) by (intro score_loop_sum) (simp add: list_all_iff appropiate_penalty_record)
  show ?thesis
    by (simp add: calculate_score_def 1 2 3 4 max.commute)
qed

lemma very_severe_issue_simps:
  "issue_record SEVERITY_KEY very_severe_issue" "accuracy_penalty very_severe_issue = - 50"
  by (simp_all add: very_severe_issue_def issue_record_def accuracy_penalty_def severity_of_def
        vocab_defs)

text \<open>
  Claim C1. For lists of accuracy-issue records and of checkpoint-issue records (and any
  fluency and appropriateness records), \<open>calculate_score\<close> returns, and its accuracy
  component is 60 plus the penalty of every accuracy issue from the fixed severity table
  (0, -5, -5, -10, -10, -50, -50 by key, and -5 for a severity that is absent or not in the
  table) plus -5 for every checkpoint issue marked wrong (0 for right or anything else),
  clamped below at 0. The witness evaluates it at one list with a single extremely severe
  issue (10) and at one with three (0).
\<close>

theorem calculate_score_accuracy:
  assumes "list_all (issue_record SEVERITY_KEY) acc" "list_all (issue_record VERDICT_KEY) ckpt"
    "list_all (issue_record SEVERITY_KEY) flu" "list_all (issue_record SEVERITY_KEY) app"
  shows "\<exists>f p. calculate_score (JArr acc) (JArr ckpt) (JArr flu) (JArr app) =
     Inr (max 0 (60 + sum_list (map accuracy_penalty acc) + sum_list (map checkpoint_penalty ckpt)),
          f, p)"
  using calculate_score_records [OF assms] by blast

theorem calculate_score_accuracy_witness:
  "(\<exists>f p. calculate_score (JArr [very_severe_issue]) (JArr []) (JArr []) (JArr []) = Inr (10, f, p))
   \<and> (\<exists>f p. calculate_score (JArr [very_severe_issue, very_severe_issue, very_severe_issue])
          (JArr []) (JArr []) (JArr []) = Inr (0, f, p))"
  using calculate_score_accuracy [of "[very_severe_issue]" "[]" "[]" "[]"]
    calculate_score_accuracy [of "[very_severe_issue, very_severe_issue, very_severe_issue]" "[]" "[]" "[]"]
  by (simp add: very_severe_issue_simps)

lemma calculate_score_le:
  assumes "calculate_score acc ckpt flu app = Inr (a, f, p)"
  shows "a \<le> 60" "f \<le> 20" "p \<le> 20"
proof -
  from assms obtain acc_items s1 ckpt_items s2 flu_items s3 app_items s4 where
    h: "score_loop SEVERITY_KEY ACCURACY_MAPPING (- 5) 60 acc_items = Inr s1"
    "score_loop VERDICT_KEY CORRECTNESS_MAPPING 0 s1 ckpt_items = Inr s2"
    "score_loop SEVERITY_KEY FLUENCY_MAPPING 0 20 flu_items = Inr s3"
    "score_loop SEVERITY_KEY APPROPIATE_MAPPING 0 20 app_items = Inr s4"
    "a = max s2 0" "f = max s3 0" "p = max s4 0"
    by (rule calculate_score_InrD)
  have "s1 \<le> 60" by (rule score_loop_le [OF h(1)]) (simp_all add: ACCURACY_MAPPING_def)
  moreover have "s2 \<le> s1" by (rule score_loop_le [OF h(2)]) (simp_all add: CORRECTNESS_MAPPING_def)
  moreover have "s3 \<le> 20" by (rule score_loop_le [OF h(3)]) (simp_all add: FLUENCY_MAPPING_def)
  moreover have "s4 \<le> 20" by (rule score_loop_le [OF h(4)]) (simp_all add: APPROPIATE_MAPPING_def)
  ultimately show "a \<le> 60" "f \<le> 20" "p \<le> 20" using h(5-7) by simp_all
qed

text \<open>
  Claim C7. \<open>calculate_score\<close> on four empty judgement lists returns (60, 20, 20), whose
  total is 100, and 100 is the largest total any input can reach: whenever the calculator
  returns a tuple, its three components add up to at most 100.
\<close>

theorem calculate_score_no_issues:
  "calculate_score (JArr []) (JArr []) (JArr []) (JArr []) = Inr (60, 20, 20)
   \<and> (60::int) + 20 + 20 = 100
   \<and> (\<forall>acc ckpt flu app a f p.
         calculate_score acc ckpt flu app = Inr (a, f, p) \<longrightarrow> a + f + p \<le> 100)"
proof (intro conjI allI impI)
  show "calculate_score (JArr []) (JArr []) (JArr []) (JArr []) = Inr (60, 20, 20)"
    by (simp add: calculate_score_def)
  show "(60::int) + 20 + 20 = 100" by simp
next
  fix acc ckpt flu app a f p
  assume "calculate_score acc ckpt flu app = Inr (a, f, p)"
  from calculate_score_le [OF this] show "a + f + p \<le> 100" by simp
qed

theorem calculate_score_no_issues_witness:
  "calculate_score (JArr [very_severe_issue]) (JArr []) (JArr []) (JArr []) = Inr (10, 20, 20)
   \<and> (10::int) + 20 + 20 \<le> 100"
proof -
  have r: "calculate_score (JArr [very_severe_issue]) (JArr []) (JArr []) (JArr []) = Inr (10, 20, 20)"
    by (simp add: calculate_score_def issue_penalty_def very_severe_issue_def ACCURACY_MAPPING_def
          vocab_defs)
  from calculate_score_no_issues have "(10::int) + 20 + 20 \<le> 100" using r by blast
  with r show ?thesis by simp
qed

text \<open>
  Claim C9. Whenever \<open>calculate_score\<close> returns, its fluency and appropriateness components
  are at least 0, and each is a non-increasing function of the number of issues flagged
  "has problem" in its list (20 minus 2, respectively 5, per flagged issue, clamped at 0): of
  two runs, the one with at least as many flagged issues has the score that is not larger.
\<close>

theorem fluency_appropiate_monotone:
  assumes "calculate_score acc ckpt flu app = Inr (a, f, p)"
    and "calculate_score acc' ckpt' flu' app' = Inr (a', f', p')"
  shows "0 \<le> f \<and> 0 \<le> p
     \<and> f = max 0 (20 - 2 * int (flagged_count flu))
     \<and> p = max 0 (20 - 5 * int (flagged_count app))
     \<and> (flagged_count flu \<le> flagged_count flu' \<longrightarrow> f' \<le> f)
     \<and> (flagged_count app \<le> flagged_count app' \<longrightarrow> p' \<le> p)"
proof -
  have comp: "f = max 0 (20 - 2 * int (flagged_count flu)) \<and> p = max 0 (20 - 5 * int (flagged_count app))"
    if "calculate_score acc ckpt flu app = Inr (a, f, p)" for acc ckpt flu app a f p
  proof -
    from that obtain flu_items s3 app_items s4 where
      h: "py_iter flu = Inr flu_items"
      "score_loop SEVERITY_KEY FLUENCY_MAPPING 0 20 flu_items = Inr s3"
      "py_iter app = Inr app_items"
      "score_loop SEVERITY_KEY APPROPIATE_MAPPING 0 20 app_items = Inr s4"
      "f = max s3 0" "p = max s4 0"
      by (rule calculate_score_InrD)
    have "s3 = 20 + sum_list (map fluency_penalty flu_items)"
      by (rule score_loop_returns [OF h(2)]) (simp add: fluency_penalty_any)
    then have s3: "s3 = 20 - 2 * int (flagged_count flu)"
      using h(1) sum_flagged [of "- 2" flu_items]
      by (simp add: flagged_count_def fluency_penalty_def [abs_def])
    have "s4 = 20 + sum_list (map appropiate_penalty app_items)"
      by (rule score_loop_returns [OF h(4)]) (simp add: appropiate_penalty_any)
    then have s4: "s4 = 20 - 5 * int (flagged_count app)"
      using h(3) sum_flagged [of "- 5" app_items]
      by (simp add: flagged_count_def appropiate_penalty_def [abs_def])
    from s3 s4 h(5,6) show ?thesis by (simp add: max.commute)
  qed
  from comp [OF assms(1)] comp [OF assms(2)] show ?thesis by auto
qed

lemma flagged_issue_simps:
  "issue_penalty SEVERITY_KEY FLUENCY_MAPPING 0 flagged_issue = Inr (- 2)"
  "issue_penalty SEVERITY_KEY APPROPIATE_MAPPING 0 flagged_issue = Inr (- 5)"
  "flagged flagged_issue"
  by (simp_all add: flagged_issue_def issue_penalty_def flagged_def severity_of_def
        FLUENCY_MAPPING_def APPROPIATE_MAPPING_def vocab_defs)

theorem fluency_appropiate_monotone_witness:
  "calculate_score (JArr []) (JArr []) (JArr []) (JArr []) = Inr (60, 20, 20)
   \<and> calculate_score (JArr []) (JArr []) (JArr [flagged_issue]) (JArr [flagged_issue]) = Inr (60, 18, 15)
   \<and> flagged_count (JArr []) \<le> flagged_count (JArr [flagged_issue])
   \<and> (18::int) \<le> 20 \<and> (15::int) \<le> 20 \<and> (0::int) \<le> 18 \<and> (0::int) \<le> 15"
proof -
  have r1: "calculate_score (JArr []) (JArr []) (JArr []) (JArr []) = Inr (60, 20, 20)"
    by (simp add: calculate_score_def)
  have r2: "calculate_score (JArr []) (JArr []) (JArr [flagged_issue]) (JArr [flagged_issue])
              = Inr (60, 18, 15)"
    by (simp add: calculate_score_def flagged_issue_simps)
  have c: "flagged_count (JArr []) \<le> flagged_count (JArr [flagged_issue])"
    by (simp add: flagged_count_def)
  from fluency_appropiate_monotone [OF r1 r2] fluency_appropiate_monotone [OF r2 r1] c r1 r2
  show ?thesis by simp
qed


section \<open>The fence pattern finds the first fenced block\<close>

declare rmatch.simps [simp del]

lemma grow_simps [simp]: "grow False g t = g" "grow True g t = g @ t"
  by (simp_all add: grow_def)

lemma fence_not_space: "\<not> isspace 96"
  by (simp add: isspace_def)

lemma prefix_fence_Cons: "prefix FENCE (x # xs) \<Longrightarrow> x = 96"
  by (simp add: FENCE_def)

lemma prefix_fence_space: "isspace x \<Longrightarrow> \<not> prefix FENCE (x # xs)"
  using fence_not_space prefix_fence_Cons by blast

lemma length_FENCE: "length FENCE = 3"
  by (simp add: FENCE_def)

lemma rmatch_tail:
  "rmatch [Star Space, Lit FENCE] False g s = (if tail_ok s then Some g else None)"
proof (induction s)
  case Nil
  show ?case by (simp add: rmatch.simps tail_ok_def grow_def)
next
  case (Cons x xs)
  have lit: "rmatch [Lit FENCE] False g (x # xs) = (if prefix FENCE (x # xs) then Some g else None)"
    by (simp add: rmatch.simps grow_def)
  show ?case
  proof (cases "isspace x")
    case True
    with Cons lit prefix_fence_space [OF True, of xs] show ?thesis
      by (simp add: rmatch.simps(9) tail_ok_def)
  next
    case False
    with lit show ?thesis by (simp add: rmatch.simps(9) tail_ok_def)
  qed
qed

lemma tail_ok_Nil: "\<not> tail_ok []"
  by (simp add: tail_ok_def FENCE_def)

lemma rmatch_close:
  "rmatch [GroupClose, Star Space, Lit FENCE] rec g s = (if tail_ok s then Some g else None)"
  by (simp add: rmatch.simps(3) rmatch_tail)

lemma rmatch_lazy:
  "rmatch [LazyStar AnyChar, GroupClose, Star Space, Lit FENCE] True g s
     = map_option (\<lambda>t. g @ t) (lazy_end s)"
proof (induction s arbitrary: g)
  case Nil
  show ?case by (simp add: rmatch.simps(10) rmatch_close tail_ok_Nil)
next
  case (Cons x xs)
  show ?case
    by (simp add: rmatch.simps(11) rmatch_close Cons grow_def option.map_comp comp_def)
qed

lemma split_at_fence_space:
  "isspace x \<Longrightarrow> split_at_fence (x # xs) = map_option (\<lambda>p. (x # fst p, snd p)) (split_at_fence xs)"
  using prefix_fence_space [of x xs] by simp

lemma split_at_fence_SomeD:
  "split_at_fence s = Some (b, a) \<Longrightarrow> s = b @ FENCE @ a"
proof (induction s arbitrary: b)
  case Nil
  then show ?case by simp
next
  case (Cons x xs)
  show ?case
  proof (cases "prefix FENCE (x # xs)")
    case True
    with Cons.prems have "b = []" "a = drop 3 (x # xs)" by simp_all
    moreover from True obtain zs where "x # xs = FENCE @ zs" by (auto simp: prefix_def)
    ultimately show ?thesis by (simp add: length_FENCE)
  next
    case False
    with Cons.prems obtain b' where "split_at_fence xs = Some (b', a)" "b = x # b'"
      by auto
    with Cons.IH show ?thesis by simp
  qed
qed

lemma py_rstrip_Nil [simp]: "py_rstrip [] = []"
  by (simp add: py_rstrip_def)

lemma py_rstrip_Cons:
  "py_rstrip (x # xs) = (if py_rstrip xs = [] \<and> isspace x then [] else x # py_rstrip xs)"
  by (auto simp: py_rstrip_def dropWhile_append dropWhile_eq_Nil_conv)

lemma py_rstrip_Nil_iff: "py_rstrip s = [] \<longleftrightarrow> (\<forall>c \<in> set s. isspace c)"
  by (auto simp: py_rstrip_def dropWhile_eq_Nil_conv)

lemma tail_ok_spaces:
  "\<forall>c \<in> set b. isspace c \<Longrightarrow> tail_ok (b @ FENCE @ a)"
  by (simp add: tail_ok_def dropWhile_append3 FENCE_def isspace_def dropWhile_append)

lemma tail_ok_Cons:
  "tail_ok (x # xs) \<longleftrightarrow> prefix FENCE (x # xs) \<or> (isspace x \<and> tail_ok xs)"
  using prefix_fence_space [of x xs] by (auto simp: tail_ok_def)

lemma lazy_end_split:
  "lazy_end s = map_option (\<lambda>p. py_rstrip (fst p)) (split_at_fence s)"
proof (induction s)
  case Nil
  show ?case by simp
next
  case (Cons x xs)
  show ?case
  proof (cases "prefix FENCE (x # xs)")
    case True
    then show ?thesis by (simp add: tail_ok_Cons)
  next
    case nf: False
    show ?thesis
    proof (cases "split_at_fence xs")
      case None
      with Cons have "lazy_end xs = None" by simp
      moreover have "\<not> tail_ok xs"
      proof
        assume "tail_ok xs"
        then have "lazy_end xs \<noteq> None" by (cases xs) (simp_all add: tail_ok_Nil)
        with \<open>lazy_end xs = None\<close> show False by simp
      qed
      ultimately show ?thesis using nf None by (simp add: tail_ok_Cons)
    next
      case (Some p)
      obtain b a where p: "p = (b, a)" by (cases p)
      from Some p have xs: "xs = b @ FENCE @ a" by (simp add: split_at_fence_SomeD)
      have le: "lazy_end xs = Some (py_rstrip b)" using Cons Some p by simp
      have tk: "tail_ok xs \<longleftrightarrow> py_rstrip b = []"
      proof
        assume "tail_ok xs"
        then have "lazy_end xs = Some []" by (cases xs) (simp_all add: tail_ok_Nil)
        with le show "py_rstrip b = []" by simp
      next
        assume "py_rstrip b = []"
        then show "tail_ok xs" unfolding xs by (intro tail_ok_spaces) (simp add: py_rstrip_Nil_iff)
      qed
      show ?thesis using nf Some p le tk
        by (auto simp: tail_ok_Cons py_rstrip_Cons)
    qed
  qed
qed

lemma rmatch_open:
  "rmatch [GroupOpen, LazyStar AnyChar, GroupClose, Star Space, Lit FENCE] rec g s = lazy_end s"
  by (simp add: rmatch.simps(2) rmatch_lazy option.map_ident)

lemma lazy_end_space_None:
  "isspace x \<Longrightarrow> lazy_end xs = None \<Longrightarrow> lazy_end (x # xs) = None"
  by (simp add: lazy_end_split split_at_fence_space del: split_at_fence.simps)

lemma lazy_end_dropWhile_None:
  "lazy_end (dropWhile isspace s) = None \<Longrightarrow> lazy_end s = None"
proof (induction s)
  case Nil
  then show ?case by simp
next
  case (Cons x xs)
  show ?case
  proof (cases "isspace x")
    case True
    with Cons show ?thesis by (intro lazy_end_space_None) simp_all
  next
    case False
    with Cons.prems show ?thesis by simp
  qed
qed

lemma rmatch_spaces:
  "rmatch [Star Space, GroupOpen, LazyStar AnyChar, GroupClose, Star Space, Lit FENCE] False g s
     = lazy_end (dropWhile isspace s)"
proof (induction s)
  case Nil
  show ?case by (simp add: rmatch.simps(8) rmatch_open)
next
  case (Cons x xs)
  show ?case
  proof (cases "isspace x")
    case True
    show ?thesis
    proof (cases "lazy_end (dropWhile isspace xs)")
      case None
      then have "lazy_end xs = None" by (rule lazy_end_dropWhile_None)
      with True have "lazy_end (x # xs) = None" by (rule lazy_end_space_None)
      with None True Cons show ?thesis
        by (simp add: rmatch.simps(9) rmatch_open del: lazy_end.simps)
    next
      case (Some r)
      with True Cons show ?thesis by (simp add: rmatch.simps(9))
    qed
  next
    case False
    then show ?thesis by (simp add: rmatch.simps(9) rmatch_open del: lazy_end.simps)
  qed
qed

lemma split_at_fence_dropWhile:
  "split_at_fence (dropWhile isspace s)
     = map_option (\<lambda>p. (dropWhile isspace (fst p), snd p)) (split_at_fence s)"
proof (induction s)
  case Nil
  show ?case by simp
next
  case (Cons x xs)
  show ?case
  proof (cases "isspace x")
    case True
    with Cons show ?thesis
      by (simp add: split_at_fence_space option.map_comp comp_def del: split_at_fence.simps)
  next
    case False
    then show ?thesis by (auto simp: option.map_comp comp_def)
  qed
qed

lemma rmatch_spaces_inner:
  "rmatch [Star Space, GroupOpen, LazyStar AnyChar, GroupClose, Star Space, Lit FENCE] False g s
     = inner_of s"
  by (simp add: rmatch_spaces lazy_end_split split_at_fence_dropWhile inner_of_def py_strip_def
        option.map_comp comp_def)

lemma split_at_fence_tag:
  "prefix JSON_TAG s \<Longrightarrow>
   split_at_fence s = map_option (\<lambda>p. (JSON_TAG @ fst p, snd p)) (split_at_fence (drop 4 s))"
  by (auto simp: prefix_def JSON_TAG_def FENCE_def option.map_comp comp_def)

lemma inner_of_None_iff: "inner_of s = None \<longleftrightarrow> split_at_fence s = None"
  by (simp add: inner_of_def)

lemma split_skip_tag_None_iff:
  "split_at_fence (skip_tag s) = None \<longleftrightarrow> split_at_fence s = None"
  by (simp add: skip_tag_def split_at_fence_tag)

lemma rmatch_opt:
  "rmatch [OptLit JSON_TAG, Star Space, GroupOpen, LazyStar AnyChar, GroupClose, Star Space, Lit FENCE]
     False g s = inner_of (skip_tag s)"
proof (cases "prefix JSON_TAG s")
  case True
  have len: "length JSON_TAG = 4" by (simp add: JSON_TAG_def)
  show ?thesis
  proof (cases "inner_of (drop 4 s)")
    case None
    with True have "inner_of s = None"
      by (simp add: inner_of_None_iff split_at_fence_tag)
    with None True show ?thesis
      by (simp add: rmatch.simps(5) rmatch_spaces_inner skip_tag_def len)
  next
    case (Some r)
    with True show ?thesis
      by (simp add: rmatch.simps(5) rmatch_spaces_inner skip_tag_def len)
  qed
next
  case False
  then show ?thesis by (simp add: rmatch.simps(5) rmatch_spaces_inner skip_tag_def)
qed

lemma rmatch_fence_pattern:
  "rmatch FENCE_PATTERN False [] s
     = (if prefix FENCE s then inner_of (skip_tag (drop 3 s)) else None)"
  by (simp add: FENCE_PATTERN_def rmatch.simps(4) rmatch_opt length_FENCE)

lemma split_at_fence_append:
  "split_at_fence (b @ FENCE @ a) \<noteq> None"
  by (induction b) (auto simp: FENCE_def)

lemma split_at_fence_drop:
  assumes "split_at_fence s = None"
  shows "split_at_fence (drop n s) = None"
proof (rule ccontr)
  assume "split_at_fence (drop n s) \<noteq> None"
  then obtain b a where "split_at_fence (drop n s) = Some (b, a)" by auto
  then have "drop n s = b @ FENCE @ a" by (rule split_at_fence_SomeD)
  then have "s = (take n s @ b) @ FENCE @ a"
    by (metis append_take_drop_id append.assoc)
  with split_at_fence_append [of "take n s @ b" a] assms show False by simp
qed

lemma re_search_fence_pattern:
  "re_search FENCE_PATTERN s
     = (case split_at_fence s of None \<Rightarrow> None | Some p \<Rightarrow> inner_of (skip_tag (snd p)))"
proof (induction s)
  case Nil
  show ?case by (simp add: rmatch_fence_pattern FENCE_def)
next
  case (Cons x xs)
  show ?case
  proof (cases "prefix FENCE (x # xs)")
    case False
    with Cons show ?thesis
      by (simp add: rmatch_fence_pattern split: option.splits)
  next
    case True
    show ?thesis
    proof (cases "inner_of (skip_tag (drop 3 (x # xs)))")
      case (Some r)
      with True show ?thesis by (simp add: rmatch_fence_pattern)
    next
      case None
      then have nf: "split_at_fence (drop 2 xs) = None"
        by (simp add: inner_of_None_iff split_skip_tag_None_iff)
      have "(case split_at_fence xs of None \<Rightarrow> None | Some p \<Rightarrow> inner_of (skip_tag (snd p))) = None"
      proof (cases "split_at_fence xs")
        case (Some p)
        obtain b a where p: "p = (b, a)" by (cases p)
        from Some p have "xs = b @ FENCE @ a" by (simp add: split_at_fence_SomeD)
        then have "a = drop (length b + 3) xs" by (simp add: length_FENCE)
        also have "\<dots> = drop (length b + 1) (drop 2 xs)" by (simp add: eval_nat_numeral)
        finally have "a = drop (length b + 1) (drop 2 xs)" .
        then have "split_at_fence a = None"
          using split_at_fence_drop [OF nf, of "length b + 1"] by (simp only:)
        with Some p show ?thesis by (simp add: inner_of_None_iff split_skip_tag_None_iff)
      qed simp
      with None True Cons show ?thesis by (simp add: rmatch_fence_pattern)
    qed
  qed
qed

lemma py_rstrip_idem: "py_rstrip (py_rstrip s) = py_rstrip s"
  by (simp add: py_rstrip_def)

lemma py_strip_idem: "py_strip (py_strip s) = py_strip s"
proof (cases "dropWhile isspace s")
  case Nil
  then show ?thesis by (simp add: py_strip_def del: dropWhile_eq_Nil_conv)
next
  case (Cons y ys)
  then have "\<not> isspace y" by (metis hd_dropWhile list.sel(1) list.distinct(1))
  with Cons show ?thesis by (simp add: py_strip_def py_rstrip_Cons py_rstrip_idem)
qed

lemma re_search_fenced_block:
  "re_search FENCE_PATTERN text = map_option py_strip (fenced_block text)"
  by (simp add: re_search_fence_pattern fenced_block_def inner_of_def option.map_comp comp_def
        split: option.splits)

text \<open>
  Claim C8. For every text, \<open>extract_json_string\<close> returns the content of the first fenced
  block (from the first fence, after an optional \<open>json\<close>, to the nearest following fence)
  with the white space around it removed, as the pattern's \<^verbatim>\<open>\s*\<close> and \<open>strip()\<close> do, and
  the whole text unchanged when there is no such block. Hence, for a parser that reads a
  valid document the same with or without surrounding white space (as \<open>json.loads\<close> does),
  parsing the result gives what parsing the block's content directly gives whenever that
  content is valid, and without a fence the whole text is what is parsed.
\<close>

theorem extract_json_string_fenced_block:
  assumes "\<And>s v. loads_fn s = Some v \<Longrightarrow> loads_fn (py_strip s) = Some (v :: json)"
  shows "extract_json_string text
           = (case fenced_block text of None \<Rightarrow> text | Some inner \<Rightarrow> py_strip inner)
     \<and> (case fenced_block text of
          None \<Rightarrow> loads_fn (extract_json_string text) = loads_fn text
        | Some inner \<Rightarrow> (\<forall>v. loads_fn inner = Some v \<longrightarrow> loads_fn (extract_json_string text) = Some v))"
proof -
  have eq: "extract_json_string text
           = (case fenced_block text of None \<Rightarrow> text | Some inner \<Rightarrow> py_strip inner)"
    by (simp add: extract_json_string_def re_search_fenced_block py_strip_idem split: option.splits)
  show ?thesis
  proof (cases "fenced_block text")
    case None
    with eq show ?thesis by simp
  next
    case (Some inner)
    with eq assms show ?thesis by simp
  qed
qed

theorem extract_json_string_fenced_block_witness:
  "extract_json_string [96, 96, 96, 106, 115, 111, 110, 10, 91, 93, 10, 96, 96, 96] = [91, 93]
   \<and> fenced_block [96, 96, 96, 106, 115, 111, 110, 10, 91, 93, 10, 96, 96, 96] = Some [10, 91, 93, 10]
   \<and> toy_loads [10, 91, 93, 10] = Some (JArr [])
   \<and> toy_loads (extract_json_string [96, 96, 96, 106, 115, 111, 110, 10, 91, 93, 10, 96, 96, 96])
       = Some (JArr [])"
proof -
  have "toy_loads (py_strip s) = toy_loads s" for s
    by (simp only: toy_loads_def py_strip_idem)
  then have h: "\<And>s v. toy_loads s = Some v \<Longrightarrow> toy_loads (py_strip s) = Some v"
    by simp
  have fb: "fenced_block [96, 96, 96, 106, 115, 111, 110, 10, 91, 93, 10, 96, 96, 96]
              = Some [10, 91, 93, 10]"
    by (simp add: fenced_block_def skip_tag_def FENCE_def JSON_TAG_def)
  have st: "py_strip [10, 91, 93, 10] = [91, 93]"
    by (simp add: py_strip_def py_rstrip_def isspace_def)
  have tl: "toy_loads [10, 91, 93, 10] = Some (JArr [])"
    by (simp add: toy_loads_def st)
  let ?t = "[96, 96, 96, 106, 115, 111, 110, 10, 91, 93, 10, 96, 96, 96] :: pystr"
  have inst: "extract_json_string ?t = py_strip [10, 91, 93, 10]
     \<and> (\<forall>v. toy_loads [10, 91, 93, 10] = Some v \<longrightarrow> toy_loads (extract_json_string ?t) = Some v)"
    by (rule extract_json_string_fenced_block
          [of toy_loads "?t", unfolded fb option.case]) (rule h)
  from inst have a: "extract_json_string ?t = py_strip [10, 91, 93, 10]" by (rule conjunct1)
  from inst tl have "toy_loads (extract_json_string ?t) = Some (JArr [])" by blast
  with a st fb tl show ?thesis by (simp only: simp_thms)
qed


section \<open>Properties of the retry wrapper\<close>

lemma safe_json_loop_fail_step:
  "attempt_fails loads_fn func st \<Longrightarrow>
   safe_json_loop loads_fn func (Suc n) st = safe_json_loop loads_fn func n (state_after func st)"
  by (cases "func st")
    (auto simp: attempt_fails_def state_after_def split: sum.splits option.splits)

lemma safe_json_loop_success:
  "func st = (Inr (Some res), st') \<Longrightarrow> loads_fn res = Some v \<Longrightarrow>
   safe_json_loop loads_fn func (Suc n) st = (v, st')"
  by simp

lemma safe_json_loop_all_fail:
  "(\<And>i. i < n \<Longrightarrow> attempt_fails loads_fn func ((state_after func ^^ i) st)) \<Longrightarrow>
   safe_json_loop loads_fn func n st = (JArr [], (state_after func ^^ n) st)"
proof (induction n arbitrary: st)
  case 0
  show ?case by simp
next
  case (Suc n)
  from Suc.prems [of 0] have f0: "attempt_fails loads_fn func st" by simp
  have "safe_json_loop loads_fn func n (state_after func st)
                = (JArr [], (state_after func ^^ n) (state_after func st))"
  proof (rule Suc.IH)
    fix i assume "i < n"
    with Suc.prems [of "Suc i"] show
      "attempt_fails loads_fn func ((state_after func ^^ i) (state_after func st))"
      by (simp add: funpow_swap1)
  qed
  with safe_json_loop_fail_step [OF f0] show ?case
    by (simp add: funpow_swap1)
qed

text \<open>
  Claim C4. The retry wrapper with its bound of 3 attempts: when the first two attempts fail
  (the wrapped function raises, returns \<open>None\<close> or returns a text the parser rejects) and
  the third returns a text the parser accepts, the wrapper returns that parse; and when every
  attempt made fails, it returns the empty list. The wrapper is a total function into the
  parsed values: it has no exceptional result, so no exception reaches the caller.
\<close>

theorem safe_json_call_retry:
  "(attempt_fails loads_fn func st0
      \<and> attempt_fails loads_fn func (state_after func st0)
      \<and> func (state_after func (state_after func st0)) = (Inr (Some res), st3)
      \<and> loads_fn res = Some v
     \<longrightarrow> safe_json_call loads_fn func 3 st0 = (v, st3))
   \<and> ((\<forall>i < nat retries. attempt_fails loads_fn func ((state_after func ^^ i) st0))
     \<longrightarrow> safe_json_call loads_fn func retries st0
           = (JArr [], (state_after func ^^ nat retries) st0))"
proof (intro conjI impI)
  assume h: "attempt_fails loads_fn func st0
      \<and> attempt_fails loads_fn func (state_after func st0)
      \<and> func (state_after func (state_after func st0)) = (Inr (Some res), st3)
      \<and> loads_fn res = Some v"
  then have f0: "attempt_fails loads_fn func st0"
    and f1: "attempt_fails loads_fn func (state_after func st0)"
    and ok: "func (state_after func (state_after func st0)) = (Inr (Some res), st3)"
    and parse: "loads_fn res = Some v"
    by simp_all
  have "safe_json_call loads_fn func 3 st0 = safe_json_loop loads_fn func (Suc (Suc (Suc 0))) st0"
    by (simp add: safe_json_call_def eval_nat_numeral)
  also have "\<dots> = safe_json_loop loads_fn func (Suc (Suc 0)) (state_after func st0)"
    by (rule safe_json_loop_fail_step [OF f0])
  also have "\<dots> = safe_json_loop loads_fn func (Suc 0) (state_after func (state_after func st0))"
    by (rule safe_json_loop_fail_step [OF f1])
  also have "\<dots> = (v, st3)"
    by (rule safe_json_loop_success [where res = res]) (fact ok, fact parse)
  finally show "safe_json_call loads_fn func 3 st0 = (v, st3)" .
next
  assume "\<forall>i < nat retries. attempt_fails loads_fn func ((state_after func ^^ i) st0)"
  then show "safe_json_call loads_fn func retries st0
           = (JArr [], (state_after func ^^ nat retries) st0)"
    unfolding safe_json_call_def by (intro safe_json_loop_all_fail) simp
qed

lemma toy_loads_simps:
  "toy_loads [91] = None" "toy_loads [123, 125] = Some (JObj [])" "toy_loads [91, 93] = Some (JArr [])"
  by (simp_all add: toy_loads_def py_strip_def py_rstrip_def isspace_def RECORD0_TEXT_def
        RECORD1_TEXT_def)

theorem safe_json_call_retry_witness:
  "safe_json_call toy_loads flaky 3 0 = (JObj [], 3)
   \<and> safe_json_call toy_loads failing 3 0 = (JArr [], 3)"
proof -
  have a: "attempt_fails toy_loads flaky 0 \<and> attempt_fails toy_loads flaky (state_after flaky 0)
      \<and> flaky (state_after flaky (state_after flaky 0)) = (Inr (Some [123, 125]), 3)
      \<and> toy_loads [123, 125] = Some (JObj [])"
    by (simp add: state_after_def attempt_fails_def flaky_def toy_loads_simps)
  have b: "\<forall>i < nat 3. attempt_fails toy_loads failing ((state_after failing ^^ i) 0)"
    by (simp add: attempt_fails_def failing_def)
  have c: "(state_after failing ^^ nat 3) 0 = 3"
    by (simp add: eval_nat_numeral state_after_def failing_def)
  from safe_json_call_retry [of toy_loads flaky 0 "[123, 125]" 3 "JObj []" 3] a
  have r1: "safe_json_call toy_loads flaky 3 0 = (JObj [], 3)" by blast
  from safe_json_call_retry [of toy_loads failing 0 "[]" 0 JNull 3] b
  have "safe_json_call toy_loads failing 3 0 = (JArr [], (state_after failing ^^ nat 3) 0)"
    by blast
  with c r1 show ?thesis by simp
qed


section \<open>Properties of the judgement pipeline\<close>

text \<open>The gate pattern matches where the marker phrase is followed, after any white space,
  by a character that is not white space, and captures that character.\<close>

lemma gate_token_after_spaces:
  "list_all isspace ws \<Longrightarrow> \<not> isspace c \<Longrightarrow>
   rmatch [Star Space, GroupOpen, One NonSpace, GroupClose] False g (ws @ c # rest) = Some [c]"
  by (induction ws) (simp_all add: rmatch.simps)

lemma gate_pattern_at_marker:
  assumes "list_all isspace ws" "\<not> isspace c"
  shows "re_search GATE_PATTERN (MARKER @ ws @ c # rest) = Some [c]"
proof -
  have "rmatch GATE_PATTERN False [] (MARKER @ ws @ c # rest) = Some [c]"
    using gate_token_after_spaces [OF assms]
    by (simp add: GATE_PATTERN_def rmatch.simps(4))
  moreover obtain x xs where "MARKER @ ws @ c # rest = x # xs"
    by (cases "MARKER @ ws @ c # rest") simp_all
  ultimately show ?thesis by simp
qed




lemma stub_environ:
  "environ (stub_ext answer) JUDGE_API_BASE = Some []"
  "environ (stub_ext answer) JUDGE_API_KEY = Some []"
  "environ (stub_ext answer) CANDIDATE_API_BASE = Some []"
  "environ (stub_ext answer) CANDIDATE_API_KEY = Some []"
  by (simp_all add: stub_ext_def JUDGE_API_BASE_def JUDGE_API_KEY_def CANDIDATE_API_BASE_def
        CANDIDATE_API_KEY_def)

lemma stub_litellm_judging:
  "litellm_generate (stub_ext answer) [(ROLE_SYSTEM, []), (ROLE_USER, [])] [] None None True None calls
     = (answer, calls @ [stub_judge_call])"
  by (simp add: litellm_generate_def stub_environ stub_judge_call_def) (simp add: stub_ext_def)

lemma stub_litellm_candidate:
  "litellm_generate (stub_ext answer) [(ROLE_USER, [])] [] None (Some 20000) False None calls
     = (answer, calls @ [stub_candidate_call])"
  by (simp add: litellm_generate_def stub_environ stub_candidate_call_def) (simp add: stub_ext_def)

lemma stub_prompts_simps:
  "instruct_sp (the_prompts (stub_ext answer)) = []" "instruct_up (the_prompts (stub_ext answer)) = []"
  "accuracy_sp (the_prompts (stub_ext answer)) = []" "up (the_prompts (stub_ext answer)) = []"
  "checkpoints_sp (the_prompts (stub_ext answer)) = []"
  "checkpoints_up (the_prompts (stub_ext answer)) = []"
  "fluency_sp (the_prompts (stub_ext answer)) = []" "appropiate_sp (the_prompts (stub_ext answer)) = []"
  "self_critique_sp (the_prompts (stub_ext answer)) = []"
  "self_critique_up (the_prompts (stub_ext answer)) = []"
  "accuracy_final_sp (the_prompts (stub_ext answer)) = []"
  "accuracy_final_up (the_prompts (stub_ext answer)) = []"
  "appropiate_final_sp (the_prompts (stub_ext answer)) = []"
  "appropiate_final_up (the_prompts (stub_ext answer)) = []"
  "checkpoints_final_sp (the_prompts (stub_ext answer)) = []"
  "checkpoints_final_up (the_prompts (stub_ext answer)) = []"
  "fluency_final_sp (the_prompts (stub_ext answer)) = []"
  "fluency_final_up (the_prompts (stub_ext answer)) = []"
  by (simp_all add: stub_ext_def stub_prompts_def)

lemma stub_eval_result:
  "eval_result_by_llm (stub_ext answer) [] [] [] kwargs calls
     = (case answer of None \<Rightarrow> Inl TypeError | Some t \<Rightarrow> Inr (extract_json_string t),
        calls @ [stub_judge_call])"
proof -
  have "str_format (stub_ext answer) [] kwargs = Inr []" by (simp add: stub_ext_def)
  then show ?thesis
    by (simp add: eval_result_by_llm_def stub_litellm_judging split: option.splits)
qed



lemma metrics_gate_raises:
  "eval_result_by_llm ext (instruct_sp (the_prompts ext)) (instruct_up (the_prompts ext))
     judge_model [(K_prompt, JStr (ori_text task)), (K_response, opt_str response)] calls
     = (Inl e, calls') \<Longrightarrow>
   metrics ext task response judge_model calls = (Inl e, calls')"
  by (simp add: metrics_def Let_def)

lemma eval_result_no_content:
  "str_format ext up_template kwargs = Inr user_prompt \<Longrightarrow>
   litellm_generate ext [(ROLE_SYSTEM, sp), (ROLE_USER, user_prompt)] judge_model None None True None calls
     = (None, calls') \<Longrightarrow>
   eval_result_by_llm ext sp up_template judge_model kwargs calls = (Inl TypeError, calls')"
  by (simp add: eval_result_by_llm_def)

lemma try_eval_fails:
  "fst (eval_result_by_llm ext sp up_template judge_model kwargs calls) = Inl e \<Longrightarrow>
   attempt_fails loads_fn (try_eval ext sp up_template judge_model kwargs) calls"
  by (cases "eval_result_by_llm ext sp up_template judge_model kwargs calls")
    (simp add: attempt_fails_def try_eval_def)

lemma silent_try_eval:
  "try_eval silent_ext [] [] [] kwargs calls = (Inr None, calls @ [stub_judge_call])"
  by (simp add: try_eval_def silent_ext_def stub_eval_result)

lemma silent_judge:
  "safe_json_call loads_fn (try_eval silent_ext [] [] [] kwargs) 3 calls
     = (JArr [], calls @ [stub_judge_call, stub_judge_call, stub_judge_call])"
  by (simp add: safe_json_call_def eval_nat_numeral silent_try_eval)

lemma silent_metrics:
  "metrics silent_ext task0 response [] calls = (Inl TypeError, calls @ [stub_judge_call])"
  by (rule metrics_gate_raises)
    (simp add: silent_ext_def stub_prompts_simps stub_eval_result)

text \<open>
  Claim C5, evaluated where the model service returns no content on every call. At the gate
  stage nothing catches the failure: \<open>re.search\<close> on \<open>None\<close> raises \<open>TypeError\<close> inside
  \<open>eval_result_by_llm\<close>, the exception leaves \<open>metrics\<close> after the single gate call, and
  \<open>wrapped_run\<close> turns the task into an error record without a score. At a dimension stage
  the same failure is absorbed: each of the four dimension judges makes its three attempts
  and returns the empty list.
\<close>

theorem gate_no_content_aborts:
  "metrics silent_ext task0 (Some []) [] [] = (Inl TypeError, [stub_judge_call])
   \<and> wrapped_run silent_ext task0 [] [] [] = (error_record [] [], [stub_candidate_call, stub_judge_call])
   \<and> judge_accuracy silent_ext [] (Some []) [] []
       = (JArr [], [stub_judge_call, stub_judge_call, stub_judge_call])
   \<and> judge_checkpoint silent_ext [] (Some []) [] [] []
       = (JArr [], [stub_judge_call, stub_judge_call, stub_judge_call])
   \<and> judge_fluency silent_ext [] (Some []) [] []
       = (JArr [], [stub_judge_call, stub_judge_call, stub_judge_call])
   \<and> judge_appropiate silent_ext [] (Some []) [] []
       = (JArr [], [stub_judge_call, stub_judge_call, stub_judge_call])"
proof (intro conjI)
  show "metrics silent_ext task0 (Some []) [] [] = (Inl TypeError, [stub_judge_call])"
    using silent_metrics [of "Some []" "[]"] by simp
  have "prompt task0 = []" by (simp add: task0_def)
  then have "run_task silent_ext task0 [] [] []
          = (Inl TypeError, [stub_candidate_call, stub_judge_call])"
    using stub_litellm_candidate [of None "[]"]
    by (simp add: run_task_def silent_ext_def [symmetric] silent_metrics)
  then show "wrapped_run silent_ext task0 [] [] []
          = (error_record [] [], [stub_candidate_call, stub_judge_call])"
    by (simp add: wrapped_run_def) (simp add: silent_ext_def stub_ext_def)
  have p: "accuracy_sp (the_prompts silent_ext) = []" "up (the_prompts silent_ext) = []"
    "checkpoints_sp (the_prompts silent_ext) = []" "checkpoints_up (the_prompts silent_ext) = []"
    "fluency_sp (the_prompts silent_ext) = []" "appropiate_sp (the_prompts silent_ext) = []"
    by (simp_all add: silent_ext_def stub_prompts_simps)
  show "judge_accuracy silent_ext [] (Some []) [] []
       = (JArr [], [stub_judge_call, stub_judge_call, stub_judge_call])"
    using silent_judge [of _ _ "[]"] by (simp add: judge_accuracy_def p)
  show "judge_checkpoint silent_ext [] (Some []) [] [] []
       = (JArr [], [stub_judge_call, stub_judge_call, stub_judge_call])"
    using silent_judge [of _ _ "[]"] by (simp add: judge_checkpoint_def p)
  show "judge_fluency silent_ext [] (Some []) [] []
       = (JArr [], [stub_judge_call, stub_judge_call, stub_judge_call])"
    using silent_judge [of _ _ "[]"] by (simp add: judge_fluency_def p)
  show "judge_appropiate silent_ext [] (Some []) [] []
       = (JArr [], [stub_judge_call, stub_judge_call, stub_judge_call])"
    using silent_judge [of _ _ "[]"] by (simp add: judge_appropiate_def p)
qed


section \<open>Properties of the task runner\<close>

text \<open>
  Claim C10. Called with an empty list of tasks, \<open>run_all_sync\<close> raises \<open>IndexError\<close>
  (from \<open>tasks[0]\<close>, read to name the task set) and leaves the world as it was: its trace
  records no glob for a checkpoint, no read, no submission and no write. It does not
  complete with an empty result set.
\<close>

theorem run_all_sync_empty:
  "run_all_sync renv ext [] model judgemodel concurrency w = (Inl IndexError, w)"
  by (simp add: run_all_sync_def)







lemma collect_final_files:
  "final_files (snd (collect renv f results rs w)) = final_files w"
  by (induction rs arbitrary: results w) (simp_all add: append_line_def)

lemma collect_jsonl_other:
  "g \<noteq> f \<Longrightarrow> jsonl_files (snd (collect renv f results rs w)) g = jsonl_files w g"
  by (induction rs arbitrary: results w) (simp_all add: append_line_def)






lemmas key_defs = K_prompt_id_def K_prompt_def K_reference_list_def K_ori_text_def
  K_Primary_Domain_def K_Secondary_Domain_def K_model_output_def K_domain_score_def K_score_def
  K_detailed_judgement_def K_error_def K_traceback_def


lemma error_record_id: "record_id (error_record msg trace) = None"
  by (simp add: record_id_def error_record_def key_defs)
































end
